theory Spec2Isabelle
  imports Complex_Main "HOL-Library.Multiset"
begin

section \<open>Exceptions\<close>

text \<open>
  The Python exceptions that the modelled code can raise or catch. A function that may
  raise returns \<open>error + 'a\<close>, with \<open>Inl\<close> the exception.
\<close>

datatype error =
    KeyError string
  | AttributeError
  | TypeError
  | JSONDecodeError
  | ServiceUnavailable
  | RequestError

section \<open>graph.py: the Neo4j store\<close>

text \<open>
  The database behind the driver. A node is an \<open>Entity\<close> with its properties: every
  node of this database is created by one of the two \<open>MERGE\<close> statements below, so it
  has a name, and it has a topic and a round once \<open>add_entity\<close> has written them. A
  relationship is a \<open>CONNECTED_TO\<close> edge between two nodes, named by their positions
  in the node list (nodes are only ever deleted all together, by \<open>clear\<close>).
  \<open>reachable\<close> says whether the server answers: a statement run on an unreachable
  server raises.
\<close>

record node =
  node_name :: string
  node_topic :: "string option"
  node_round :: "int option"

record edge =
  edge_from :: nat
  edge_to :: nat
  edge_relationship :: string
  edge_suspicion :: int

record neo4j =
  nodes :: "node list"
  edges :: "edge list"
  reachable :: bool

text \<open>The object: \<open>self.available\<close> and \<open>self._driver\<close> (\<open>None\<close> or the open driver,
  through which the database is seen).\<close>

record conspiracy_graph =
  available :: bool
  driver :: "neo4j option"

text \<open>The dict that \<open>get_connections\<close> builds from one result row.\<close>

record connection =
  conn_from :: string
  conn_to :: string
  conn_relationship :: string
  conn_suspicion :: int

subsection \<open>The Cypher statements\<close>

text \<open>\<open>MATCH (n) DETACH DELETE n\<close>\<close>

definition cypher_delete_all :: "neo4j \<Rightarrow> neo4j" where
  "cypher_delete_all db = db\<lparr>nodes := [], edges := []\<rparr>"

text \<open>\<open>MERGE (e:Entity {name: $name})\<close>: the rows are the nodes with that name; when
  there is none, one is created, with the name as its only property.\<close>

definition match_entity :: "string \<Rightarrow> node list \<Rightarrow> nat list" where
  "match_entity n ns = filter (\<lambda>i. node_name (ns ! i) = n) [0..<length ns]"

definition merge_entity :: "string \<Rightarrow> node list \<Rightarrow> node list \<times> nat list" where
  "merge_entity n ns =
     (if match_entity n ns = []
      then (ns @ [\<lparr>node_name = n, node_topic = None, node_round = None\<rparr>], [length ns])
      else (ns, match_entity n ns))"

text \<open>\<open>SET e.topic = $topic, e.round = $round\<close>, on every row.\<close>

definition set_entity :: "string \<Rightarrow> int \<Rightarrow> nat list \<Rightarrow> node list \<Rightarrow> node list" where
  "set_entity t r rows ns =
     fold (\<lambda>i ms. ms[i := (ms ! i)\<lparr>node_topic := Some t, node_round := Some r\<rparr>]) rows ns"

definition cypher_add_entity :: "string \<Rightarrow> string \<Rightarrow> int \<Rightarrow> neo4j \<Rightarrow> neo4j" where
  "cypher_add_entity n t r db =
     (case merge_entity n (nodes db) of
        (ns, rows) \<Rightarrow> db\<lparr>nodes := set_entity t r rows ns\<rparr>)"

text \<open>\<open>MERGE (a)-[r:CONNECTED_TO]->(b) SET r.relationship = $rel, r.suspicion = $suspicion\<close>
  for one row \<open>(a, b)\<close>: the rows are the edges from \<open>a\<close> to \<open>b\<close>, one is created when
  there is none, and the two properties are written on every row.\<close>

definition match_edge :: "nat \<Rightarrow> nat \<Rightarrow> edge list \<Rightarrow> nat list" where
  "match_edge a b es = filter (\<lambda>j. edge_from (es ! j) = a \<and> edge_to (es ! j) = b) [0..<length es]"

definition merge_set_edge :: "string \<Rightarrow> int \<Rightarrow> nat \<times> nat \<Rightarrow> edge list \<Rightarrow> edge list" where
  "merge_set_edge rel s ab es =
     (case ab of (a, b) \<Rightarrow>
        if match_edge a b es = []
        then es @ [\<lparr>edge_from = a, edge_to = b, edge_relationship = rel, edge_suspicion = s\<rparr>]
        else fold (\<lambda>j fs. fs[j := (fs ! j)\<lparr>edge_relationship := rel, edge_suspicion := s\<rparr>])
               (match_edge a b es) es)"

text \<open>The whole statement of \<open>add_connection\<close>: the two node merges, the second one
  seeing what the first one created, then the edge merge on every pair of rows.\<close>

definition cypher_add_connection :: "string \<Rightarrow> string \<Rightarrow> string \<Rightarrow> int \<Rightarrow> neo4j \<Rightarrow> neo4j" where
  "cypher_add_connection f t rel s db =
     (case merge_entity f (nodes db) of
        (ns1, as) \<Rightarrow>
          (case merge_entity t ns1 of
             (ns2, bs) \<Rightarrow>
               db\<lparr>nodes := ns2,
                  edges := fold (merge_set_edge rel s) (List.product as bs) (edges db)\<rparr>))"

text \<open>\<open>MATCH (a:Entity)-[r:CONNECTED_TO]->(b:Entity) RETURN a.name, b.name,
  r.relationship, r.suspicion\<close>: one row for each edge whose two ends are nodes.\<close>

definition cypher_connections :: "neo4j \<Rightarrow> connection list" where
  "cypher_connections db =
     map (\<lambda>e. \<lparr>conn_from = node_name (nodes db ! edge_from e),
               conn_to = node_name (nodes db ! edge_to e),
               conn_relationship = edge_relationship e,
               conn_suspicion = edge_suspicion e\<rparr>)
       (filter (\<lambda>e. edge_from e < length (nodes db) \<and> edge_to e < length (nodes db)) (edges db))"

text \<open>\<open>session.run\<close>: the statement runs when the server answers, and raises otherwise.\<close>

definition session_run :: "neo4j \<Rightarrow> (neo4j \<Rightarrow> 'a) \<Rightarrow> error + 'a" where
  "session_run db q = (if reachable db then Inr (q db) else Inl ServiceUnavailable)"

subsection \<open>The methods of ConspiracyGraph\<close>

definition close :: "conspiracy_graph \<Rightarrow> error + conspiracy_graph" where
  "close g = (case driver g of None \<Rightarrow> Inr g | Some db \<Rightarrow> Inr (g\<lparr>driver := None\<rparr>))"

definition clear :: "conspiracy_graph \<Rightarrow> error + conspiracy_graph" where
  "clear g =
     (if \<not> available g \<or> driver g = None then Inr g
      else case session_run (the (driver g)) cypher_delete_all of
             Inl e \<Rightarrow> Inl e
           | Inr db \<Rightarrow> Inr (g\<lparr>driver := Some db\<rparr>))"

definition add_entity :: "conspiracy_graph \<Rightarrow> string \<Rightarrow> string \<Rightarrow> int \<Rightarrow> error + conspiracy_graph" where
  "add_entity g n t r =
     (if \<not> available g \<or> driver g = None then Inr g
      else case session_run (the (driver g)) (cypher_add_entity n t r) of
             Inl e \<Rightarrow> Inl e
           | Inr db \<Rightarrow> Inr (g\<lparr>driver := Some db\<rparr>))"

definition add_connection ::
  "conspiracy_graph \<Rightarrow> string \<Rightarrow> string \<Rightarrow> string \<Rightarrow> int \<Rightarrow> error + conspiracy_graph" where
  "add_connection g f t rel s =
     (if \<not> available g \<or> driver g = None then Inr g
      else case session_run (the (driver g)) (cypher_add_connection f t rel s) of
             Inl e \<Rightarrow> Inl e
           | Inr db \<Rightarrow> Inr (g\<lparr>driver := Some db\<rparr>))"

definition get_all_entities :: "conspiracy_graph \<Rightarrow> error + node list" where
  "get_all_entities g =
     (if \<not> available g \<or> driver g = None then Inr []
      else session_run (the (driver g)) nodes)"

definition get_connections :: "conspiracy_graph \<Rightarrow> error + connection list" where
  "get_connections g =
     (if \<not> available g \<or> driver g = None then Inr []
      else session_run (the (driver g)) cypher_connections)"

definition get_entity_count :: "conspiracy_graph \<Rightarrow> error + int" where
  "get_entity_count g =
     (if \<not> available g \<or> driver g = None then Inr 0
      else session_run (the (driver g)) (\<lambda>db. int (length (nodes db))))"

text \<open>
  What the two upsert statements keep true of the database: no two nodes share a name,
  no two edges share an ordered pair of ends, and every edge ends in nodes. \<open>clear\<close>
  establishes it, at the start of every run.
\<close>

definition graph_inv :: "neo4j \<Rightarrow> bool" where
  "graph_inv db =
     (distinct (map node_name (nodes db)) \<and>
      distinct (map (\<lambda>e. (edge_from e, edge_to e)) (edges db)) \<and>
      list_all (\<lambda>e. edge_from e < length (nodes db) \<and> edge_to e < length (nodes db)) (edges db))"

text \<open>A store whose statements do not raise: it has no driver, or is flagged
  unavailable, or its server answers.\<close>

definition answers :: "conspiracy_graph \<Rightarrow> bool" where
  "answers g = (case driver g of None \<Rightarrow> True | Some db \<Rightarrow> \<not> available g \<or> reachable db)"

section \<open>Python strings\<close>

text \<open>
  A string is a list of characters, one \<open>char\<close> for one character of the Python
  \<open>str\<close> (of the characters up to 255, which are those that \<open>char\<close> has); \<open>len\<close> is
  \<open>length\<close> and the slice \<open>s[:k]\<close> is \<open>take k s\<close>.
  \<open>py_isspace\<close> is \<open>str.isspace\<close> on one character, which is also the class \<open>\s\<close> of
  \<open>re\<close>: tab to carriage return, the four separators 28 to 31, the space, and 133 and
  160.
\<close>

definition py_isspace :: "char \<Rightarrow> bool" where
  "py_isspace c =
     (let n = (of_char c :: nat)
      in (9 \<le> n \<and> n \<le> 13) \<or> (28 \<le> n \<and> n \<le> 32) \<or> n = 133 \<or> n = 160)"

definition py_rstrip :: "string \<Rightarrow> string" where
  "py_rstrip s = rev (dropWhile py_isspace (rev s))"

definition py_strip :: "string \<Rightarrow> string" where
  "py_strip s = py_rstrip (dropWhile py_isspace s)"

text \<open>\<open>sep.join(parts)\<close>\<close>

fun str_join :: "string \<Rightarrow> string list \<Rightarrow> string" where
  "str_join sep [] = []"
| "str_join sep [x] = x"
| "str_join sep (x # y # ys) = x @ sep @ str_join sep (y # ys)"

definition startswith :: "string \<Rightarrow> string \<Rightarrow> bool" where
  "startswith s p = (take (length p) s = p)"

definition endswith :: "string \<Rightarrow> string \<Rightarrow> bool" where
  "endswith s p = (length p \<le> length s \<and> drop (length s - length p) s = p)"

text \<open>The value of \<open>d.get(key, default)\<close> for a key that is present or absent.\<close>

definition get_default :: "'a option \<Rightarrow> 'a \<Rightarrow> 'a" where
  "get_default v d = (case v of None \<Rightarrow> d | Some x \<Rightarrow> x)"

section \<open>Python values\<close>

text \<open>
  A value decoded from JSON, which is also what the value under a key of a dict may be:
  \<open>None\<close>, a bool, a number, a \<open>str\<close>, a list or a dict. An object holds the items of
  the dict.
\<close>

datatype json =
    JNull
  | JBool bool
  | JInt int
  | JFloat real
  | JStr string
  | JArr "json list"
  | JObj "(string \<times> json) list"

section \<open>search.py\<close>

text \<open>
  A result as the search provider returns it (any of the three keys may be absent), and
  a result dict as \<open>search_topic\<close> hands it on and the extractor reads it: of such a
  dict the extractor reads the \<open>content\<close> key alone, which may be absent and may hold
  any value. The provider's answer is a dict, whose \<open>results\<close> and
  \<open>images\<close> keys may be absent, or something that is not a dict (\<open>None\<close> here). The
  client is the module's \<open>_client\<close>: \<open>None\<close>, or its \<open>search\<close> method, from the query and
  \<open>max_results\<close> to an answer or an exception.
\<close>

record raw_result =
  raw_title :: "string option"
  raw_url :: "string option"
  raw_content :: "string option"

record search_result =
  title :: string
  url :: string
  content :: "json option"

record tavily_response =
  tavily_results :: "raw_result list option"
  tavily_images :: "string list option"

type_synonym tavily_client = "(string \<Rightarrow> int \<Rightarrow> error + tavily_response option) option"

definition truncate_text :: "string \<Rightarrow> nat \<Rightarrow> string" where
  "truncate_text text max_len =
     (if text = [] then []
      else if length text > max_len then take max_len text else text)"

definition search_topic ::
  "tavily_client \<Rightarrow> string \<Rightarrow> int \<Rightarrow> search_result list \<times> string list" where
  "search_topic client topic max_results =
     (case client of
        None \<Rightarrow> ([], [])
      | Some search \<Rightarrow>
          (case search topic max_results of
             Inl e \<Rightarrow> ([], [])
           | Inr response \<Rightarrow>
               (let results = (case response of None \<Rightarrow> []
                               | Some d \<Rightarrow> get_default (tavily_results d) []);
                    images = (case response of None \<Rightarrow> []
                              | Some d \<Rightarrow> get_default (tavily_images d) [])
                in (map (\<lambda>r. \<lparr>title = get_default (raw_title r) [],
                              url = get_default (raw_url r) [],
                              content = Some (JStr (truncate_text (get_default (raw_content r) []) 500))\<rparr>)
                      results,
                    take 3 images))))"

definition search_connections ::
  "tavily_client \<Rightarrow> string \<Rightarrow> string \<Rightarrow> search_result list \<times> string list" where
  "search_connections client topic_a topic_b =
     search_topic client (topic_a @ '' '' @ topic_b @ '' connection relationship'') 3"

section \<open>senso.py\<close>

text \<open>
  The body of the knowledge store's answer, after \<open>response.json()\<close>: an optional
  \<open>answer\<close> and an optional list of results, each with an optional \<open>chunk_text\<close>
  (\<open>None\<close> for a key that is absent or null). \<open>post\<close> stands for the request, from the
  API key and the query to the body; a connection error, a timeout, an error status and
  a body that is not a JSON object are its exceptions, all caught by the one handler.
\<close>

record senso_result =
  chunk_text :: "string option"

record senso_data =
  answer :: "string option"
  results :: "senso_result list option"





section \<open>vision.py\<close>

text \<open>
  The module's \<open>_client\<close> is \<open>None\<close>, or the chat call, from the image URL and the prompt
  to the text of the first response (\<open>None\<close> when it carries no text) or an exception.
\<close>

type_synonym reka_client = "(string \<Rightarrow> string \<Rightarrow> error + string option) option"

definition vision_prompt :: "string \<Rightarrow> string \<Rightarrow> string" where
  "vision_prompt topic_a topic_b =
     ''You are a conspiracy theorist investigating connections between '' @ [CHR 0x27] @ topic_a
     @ [CHR 0x27] @ '' and '' @ [CHR 0x27] @ topic_b @ [CHR 0x27] @ ''. ''
     @ ''Analyze this image for any suspicious details, hidden symbols, or connections to either topic. ''
     @ ''Respond in EXACTLY 1-2 sentences as a paranoid conspiracy theorist. Be specific about what you see.''"

definition analyze_image :: "reka_client \<Rightarrow> string \<Rightarrow> string \<Rightarrow> string \<Rightarrow> string" where
  "analyze_image client image_url topic_a topic_b =
     (case client of
        None \<Rightarrow> []
      | Some chat \<Rightarrow>
          (case chat image_url (vision_prompt topic_a topic_b) of
             Inl e \<Rightarrow> []
           | Inr None \<Rightarrow> []
           | Inr (Some text) \<Rightarrow> py_strip text))"

section \<open>extractor.py\<close>

text \<open>
  The two library calls of the module: the chat completion, from the system and the user
  message to the text of the first choice (\<open>None\<close> when it has none) or an exception, and
  \<open>json.loads\<close>, from a text to the decoded value or an exception.
\<close>

type_synonym openai_client = "string \<Rightarrow> string \<Rightarrow> error + string option"

type_synonym json_loads = "string \<Rightarrow> error + json"

text \<open>The dict that \<open>extract_entities_and_connections\<close> returns: its four keys, with
  whatever values the decoded object has under them.\<close>

record extraction =
  entities_a :: json
  entities_b :: json
  connections :: json
  insight :: json

definition fallback :: extraction where
  "fallback =
     \<lparr>entities_a = JArr [], entities_b = JArr [], connections = JArr [],
      insight = JStr ''No connections found yet...''\<rparr>"

text \<open>
  \<open>"\n".join(r.get("content", "") for r in search_results)\<close>, capped at 3000. The
  content of a result is the empty string when the key is absent; \<open>join\<close> takes the
  items that are strings and raises a TypeError on any other item. This is before the
  \<open>try\<close>.
\<close>

definition get_content :: "search_result \<Rightarrow> json" where
  "get_content r = get_default (content r) (JStr [])"

fun join_items :: "json list \<Rightarrow> error + string list" where
  "join_items [] = Inr []"
| "join_items (JStr s # rest) =
     (case join_items rest of Inl e \<Rightarrow> Inl e | Inr parts \<Rightarrow> Inr (s # parts))"
| "join_items (v # rest) = Inl TypeError"

definition raw_text :: "search_result list \<Rightarrow> error + string" where
  "raw_text search_results =
     (case join_items (map get_content search_results) of
        Inl e \<Rightarrow> Inl e
      | Inr parts \<Rightarrow>
          (let text = str_join ''\<newline>'' parts
           in Inr (if length text > 3000 then take 3000 text else text)))"

definition extraction_system :: string where
  "extraction_system =
     ''You are a conspiracy theorist AI. Extract entities and find suspicious connections.''"

definition extraction_prompt :: "string \<Rightarrow> string \<Rightarrow> string \<Rightarrow> string" where
  \<open>extraction_prompt topic_a topic_b text =
     ''Topics: '' @ [CHR 0x27] @ topic_a @ [CHR 0x27] @ '' and '' @ [CHR 0x27] @ topic_b
     @ [CHR 0x27] @ ''.\<newline>\<newline>''
     @ ''Text:\<newline>'' @ text @ ''\<newline>\<newline>''
     @ ''Extract entities and suspicious connections. ''
     @ ''Return ONLY valid JSON in this exact structure:\<newline>''
     @ ''{\<newline>''
     @ ''  "entities_a": ["entity1", "entity2"],\<newline>''
     @ ''  "entities_b": ["entity1", "entity2"],\<newline>''
     @ ''  "connections": [\<newline>''
     @ ''    {"from": "entity_name", "to": "entity_name", "relationship": "one sentence", "suspicion_level": 7}\<newline>''
     @ ''  ],\<newline>''
     @ ''  "insight": "one sentence summary of the most suspicious connection found"\<newline>''
     @ ''}''\<close>

text \<open>
  The two substitutions that remove a code fence. The first pattern is anchored at the
  start: three backquotes, \<open>json\<close> when it follows, then any whitespace. The second is
  anchored at the end, where \<open>$\<close> also matches before one final newline: any whitespace,
  then three backquotes.
\<close>

definition strip_opening_fence :: "string \<Rightarrow> string" where
  "strip_opening_fence s =
     (if startswith s ''```''
      then (let r = drop 3 s
            in dropWhile py_isspace (if startswith r ''json'' then drop 4 r else r))
      else s)"

definition strip_closing_fence :: "string \<Rightarrow> string" where
  "strip_closing_fence s =
     (if endswith s ''```'' then py_rstrip (take (length s - 3) s)
      else if endswith s ''```\<newline>'' then py_rstrip (take (length s - 4) s) @ ''\<newline>''
      else s)"

definition strip_code_fences :: "string \<Rightarrow> string" where
  "strip_code_fences s = strip_closing_fence (strip_opening_fence s)"

text \<open>The body of the \<open>try\<close>: the request, the text of the answer (\<open>strip\<close> of \<open>None\<close> is
  an AttributeError, as is \<open>get\<close> of a decoded value that is not a dict), and the four
  keys with their defaults.\<close>

definition extraction_request ::
  "openai_client \<Rightarrow> json_loads \<Rightarrow> string \<Rightarrow> error + extraction" where
  "extraction_request chat loads user_prompt =
     (case chat extraction_system user_prompt of
        Inl e \<Rightarrow> Inl e
      | Inr None \<Rightarrow> Inl AttributeError
      | Inr (Some text) \<Rightarrow>
          (case loads (strip_code_fences (py_strip text)) of
             Inl e \<Rightarrow> Inl e
           | Inr (JObj parsed) \<Rightarrow>
               Inr \<lparr>entities_a = get_default (map_of parsed ''entities_a'') (JArr []),
                    entities_b = get_default (map_of parsed ''entities_b'') (JArr []),
                    connections = get_default (map_of parsed ''connections'') (JArr []),
                    insight = get_default (map_of parsed ''insight'') (insight fallback)\<rparr>
           | Inr _ \<Rightarrow> Inl AttributeError))"

text \<open>The function returns its result, or raises what the join raises, and beside
  that here are the user messages it has sent to the language model.\<close>

definition extract_entities_and_connections ::
  "openai_client \<Rightarrow> json_loads \<Rightarrow> string \<Rightarrow> string \<Rightarrow> search_result list
     \<Rightarrow> (error + extraction) \<times> string list" where
  "extract_entities_and_connections chat loads topic_a topic_b search_results =
     (case raw_text search_results of
        Inl e \<Rightarrow> (Inl e, [])
      | Inr text \<Rightarrow>
          if py_strip text = [] then (Inr fallback, [])
          else (let user_prompt = extraction_prompt topic_a topic_b text
                in (case extraction_request chat loads user_prompt of
                      Inl e \<Rightarrow> Inr fallback
                    | Inr r \<Rightarrow> Inr r,
                    [user_prompt])))"

definition fallback_queries :: "string \<Rightarrow> string \<Rightarrow> string list" where
  "fallback_queries topic_a topic_b =
     [topic_a @ '' secret connections'',
      topic_b @ '' hidden links'',
      topic_a @ '' '' @ topic_b @ '' conspiracy'']"

definition deeper_system :: string where
  "deeper_system = ''You are a conspiracy theorist AI. Find suspicious connections.''"

definition deeper_prompt :: "string \<Rightarrow> string \<Rightarrow> string \<Rightarrow> string" where
  "deeper_prompt topic_a topic_b previous_insight =
     ''Topics: '' @ [CHR 0x27] @ topic_a @ [CHR 0x27] @ '' and '' @ [CHR 0x27] @ topic_b
     @ [CHR 0x27] @ ''.\<newline>''
     @ ''Previous insight: '' @ previous_insight @ ''\<newline>\<newline>''
     @ ''Give me exactly 3 specific web search queries to dig deeper into the ''
     @ ''suspicious connections between these topics. ''
     @ ''Return ONLY a JSON array of 3 strings, nothing else.''"

text \<open>\<open>str(q)\<close>: a string is itself, and \<open>str_of\<close> formats any other value.\<close>

definition py_str :: "(json \<Rightarrow> string) \<Rightarrow> json \<Rightarrow> string" where
  "py_str str_of q = (case q of JStr s \<Rightarrow> s | _ \<Rightarrow> str_of q)"

text \<open>The body of the \<open>try\<close> of \<open>get_deeper_search_queries\<close>.\<close>

definition deeper_request ::
  "openai_client \<Rightarrow> json_loads \<Rightarrow> (json \<Rightarrow> string) \<Rightarrow> string \<Rightarrow> string \<Rightarrow> string
     \<Rightarrow> error + string list" where
  "deeper_request chat loads str_of topic_a topic_b previous_insight =
     (case chat deeper_system (deeper_prompt topic_a topic_b previous_insight) of
        Inl e \<Rightarrow> Inl e
      | Inr None \<Rightarrow> Inl AttributeError
      | Inr (Some text) \<Rightarrow>
          (case loads (strip_code_fences (py_strip text)) of
             Inl e \<Rightarrow> Inl e
           | Inr (JArr queries) \<Rightarrow>
               if length queries \<ge> 1 then Inr (map (py_str str_of) (take 3 queries))
               else Inr (fallback_queries topic_a topic_b)
           | Inr _ \<Rightarrow> Inr (fallback_queries topic_a topic_b)))"

definition get_deeper_search_queries ::
  "openai_client \<Rightarrow> json_loads \<Rightarrow> (json \<Rightarrow> string) \<Rightarrow> string \<Rightarrow> string \<Rightarrow> string
     \<Rightarrow> string list" where
  "get_deeper_search_queries chat loads str_of topic_a topic_b previous_insight =
     (case deeper_request chat loads str_of topic_a topic_b previous_insight of
        Inl e \<Rightarrow> fallback_queries topic_a topic_b
      | Inr queries \<Rightarrow> queries)"

section \<open>agent.py\<close>

text \<open>
  The steps of one round of \<open>run_agent\<close>, and the end of the run. Of the events, the two
  that the properties below speak of: \<open>image_clue\<close> with its URL, clue and round, and
  \<open>complete\<close> with the entity total, the number of connections and the top connections.
  \<open>emit\<close> is \<open>_emit\<close>: the event goes to the callback when there is one.
\<close>

record top_connection =
  top_from :: string
  top_to :: string
  top_relationship :: string

datatype event =
    ImageClue string string int
  | Complete int nat "top_connection list"

definition emit :: "bool \<Rightarrow> event \<Rightarrow> event list" where
  "emit on_event ev = (if on_event then [ev] else [])"

subsection \<open>Step 2: search\<close>

text \<open>The connection search, then from the second round on one search for each deeper
  query, then the two topics. The result is the three result lists and the image URLs
  of the round, in the order in which they are collected.\<close>

definition round_search ::
  "tavily_client \<Rightarrow> openai_client \<Rightarrow> json_loads \<Rightarrow> (json \<Rightarrow> string) \<Rightarrow> string \<Rightarrow> string
     \<Rightarrow> int \<Rightarrow> string
     \<Rightarrow> search_result list \<times> search_result list \<times> search_result list \<times> string list" where
  "round_search tavily chat loads str_of topic_a topic_b round_num last_insight =
     (let deeper_queries =
            (if round_num = 1 then []
             else get_deeper_search_queries chat loads str_of topic_a topic_b last_insight);
          (connection_results, round_images) =
            fold (\<lambda>query (rs, imgs).
                    case search_topic tavily query 3 of
                      (extra_results, extra_images) \<Rightarrow> (rs @ extra_results, imgs @ extra_images))
              deeper_queries (search_connections tavily topic_a topic_b);
          (topic_a_results, topic_a_images) = search_topic tavily topic_a 5;
          (topic_b_results, topic_b_images) = search_topic tavily topic_b 5
      in (topic_a_results, topic_b_results, connection_results,
          round_images @ topic_a_images @ topic_b_images))"




subsection \<open>Step 4: store in the graph\<close>

text \<open>
  A connection dict of the extraction, with the types that the extractor documents; a
  field is \<open>None\<close> when its key is absent. \<open>conn["from"]\<close> of an absent key is a KeyError,
  and the four arguments are evaluated, in their order, before \<open>add_connection\<close> is
  entered.
\<close>

record conn_dict =
  cd_from :: "string option"
  cd_to :: "string option"
  cd_relationship :: "string option"
  cd_suspicion_level :: "int option"

definition subscript :: "'a option \<Rightarrow> string \<Rightarrow> error + 'a" where
  "subscript v key = (case v of None \<Rightarrow> Inl (KeyError key) | Some x \<Rightarrow> Inr x)"

fun store_entities ::
  "conspiracy_graph \<Rightarrow> string \<Rightarrow> int \<Rightarrow> string list \<Rightarrow> error + conspiracy_graph" where
  "store_entities g topic round_num [] = Inr g"
| "store_entities g topic round_num (entity # rest) =
     (case add_entity g entity topic round_num of
        Inl e \<Rightarrow> Inl e
      | Inr g' \<Rightarrow> store_entities g' topic round_num rest)"

fun store_connections :: "conspiracy_graph \<Rightarrow> conn_dict list \<Rightarrow> error + conspiracy_graph" where
  "store_connections g [] = Inr g"
| "store_connections g (conn # rest) =
     (case subscript (cd_from conn) ''from'' of
        Inl e \<Rightarrow> Inl e
      | Inr f \<Rightarrow>
     (case subscript (cd_to conn) ''to'' of
        Inl e \<Rightarrow> Inl e
      | Inr t \<Rightarrow>
     (case subscript (cd_relationship conn) ''relationship'' of
        Inl e \<Rightarrow> Inl e
      | Inr rel \<Rightarrow>
     (case add_connection g f t rel (get_default (cd_suspicion_level conn) 5) of
        Inl e \<Rightarrow> Inl e
      | Inr g' \<Rightarrow> store_connections g' rest))))"

text \<open>The three loops and the count that follows them; an exception of any of them
  leaves \<open>run_agent\<close>, which has no handler.\<close>

definition store_in_graph ::
  "conspiracy_graph \<Rightarrow> string \<Rightarrow> string \<Rightarrow> int \<Rightarrow> string list \<Rightarrow> string list \<Rightarrow> conn_dict list
     \<Rightarrow> error + conspiracy_graph \<times> int" where
  "store_in_graph g topic_a topic_b round_num ents_a ents_b conns =
     (case store_entities g topic_a round_num ents_a of
        Inl e \<Rightarrow> Inl e
      | Inr g1 \<Rightarrow>
     (case store_entities g1 topic_b round_num ents_b of
        Inl e \<Rightarrow> Inl e
      | Inr g2 \<Rightarrow>
     (case store_connections g2 conns of
        Inl e \<Rightarrow> Inl e
      | Inr g3 \<Rightarrow>
     (case get_entity_count g3 of
        Inl e \<Rightarrow> Inl e
      | Inr entity_count \<Rightarrow> Inr (g3, entity_count)))))"

subsection \<open>Step 5b: the images\<close>

text \<open>\<open>list(dict.fromkeys(round_images))\<close>: the keys of a dict in the order in which they
  were first inserted.\<close>

definition dict_fromkeys :: "'a list \<Rightarrow> 'a list" where
  "dict_fromkeys xs = fold (\<lambda>k keys. if k \<in> set keys then keys else keys @ [k]) xs []"

definition unique_images :: "string list \<Rightarrow> string list" where
  "unique_images round_images = take 2 (dict_fromkeys round_images)"

text \<open>The loop over \<open>unique_images\<close>: the events it emits and, beside them, the URLs it
  has passed to \<open>analyze_image\<close>.\<close>

definition analyze_images ::
  "reka_client \<Rightarrow> bool \<Rightarrow> string \<Rightarrow> string \<Rightarrow> int \<Rightarrow> string list \<Rightarrow> event list \<times> string list" where
  "analyze_images reka on_event topic_a topic_b round_num round_images =
     fold (\<lambda>image_url (events, analyzed).
             (let clue = analyze_image reka image_url topic_a topic_b
              in (if clue \<noteq> []
                  then events @ emit on_event (ImageClue image_url clue round_num)
                  else events,
                  analyzed @ [image_url])))
       (unique_images round_images) ([], [])"

subsection \<open>After the rounds\<close>





section \<open>The specification's words\<close>

text \<open>The deduplication that keeps the first occurrence of every element, in the order
  in which the elements are first seen.\<close>

fun first_occurrences :: "'a list \<Rightarrow> 'a list" where
  "first_occurrences [] = []"
| "first_occurrences (x # xs) = x # first_occurrences (filter (\<lambda>y. y \<noteq> x) xs)"

text \<open>A result whose content is a string or absent, and the contents of such results
  as strings.\<close>

definition has_str_content :: "search_result \<Rightarrow> bool" where
  "has_str_content r = (case get_content r of JStr s \<Rightarrow> True | _ \<Rightarrow> False)"

definition contents :: "search_result list \<Rightarrow> string list" where
  "contents rs = map (\<lambda>r. case get_content r of JStr s \<Rightarrow> s | _ \<Rightarrow> []) rs"

text \<open>The first 3000 characters of the contents joined by newlines.\<close>

definition joined_text :: "search_result list \<Rightarrow> string" where
  "joined_text rs = take 3000 (str_join ''\<newline>'' (contents rs))"


text \<open>A connection dict with the three keys that the upsert subscripts, and the first of
  them that a dict lacks.\<close>

definition has_required_keys :: "conn_dict \<Rightarrow> bool" where
  "has_required_keys conn =
     (cd_from conn \<noteq> None \<and> cd_to conn \<noteq> None \<and> cd_relationship conn \<noteq> None)"

definition missing_key :: "conn_dict \<Rightarrow> string" where
  "missing_key conn =
     (if cd_from conn = None then ''from''
      else if cd_to conn = None then ''to'' else ''relationship'')"

section \<open>The graph store\<close>

subsection \<open>The statements, as functions on the lists\<close>

lemma fold_update_nth:
  "distinct js \<Longrightarrow> \<forall>i\<in>set js. i < length xs \<Longrightarrow>
   length (fold (\<lambda>i ms. ms[i := f (ms ! i)]) js xs) = length xs \<and>
   (\<forall>k<length xs. fold (\<lambda>i ms. ms[i := f (ms ! i)]) js xs ! k
       = (if k \<in> set js then f (xs ! k) else xs ! k))"
proof (induction js arbitrary: xs)
  case Nil
  then show ?case by simp
next
  case (Cons j js)
  let ?ys = "xs[j := f (xs ! j)]"
  have d: "distinct js" and nj: "j \<notin> set js" and jl: "j < length xs"
    using Cons.prems by auto
  have b: "\<forall>i\<in>set js. i < length ?ys" using Cons.prems by auto
  from Cons.IH[OF d b] show ?case using nj jl
    by (auto simp: nth_list_update)
qed

lemma fold_update_map:
  "fold (\<lambda>i ms. ms[i := f (ms ! i)]) (filter (\<lambda>i. P (xs ! i)) [0..<length xs]) xs
   = map (\<lambda>x. if P x then f x else x) xs"
proof -
  let ?js = "filter (\<lambda>i. P (xs ! i)) [0..<length xs]"
  have d: "distinct ?js" by simp
  have b: "\<forall>i\<in>set ?js. i < length xs" by simp
  from fold_update_nth[OF d b, of f] show ?thesis
    by (auto intro!: nth_equalityI)
qed

lemma distinct_filter_key:
  "distinct (map f xs) \<Longrightarrow> x \<in> set xs \<Longrightarrow> filter (\<lambda>y. f y = f x) xs = [x]"
proof (induction xs)
  case Nil
  then show ?case by simp
next
  case (Cons a xs)
  show ?case
  proof (cases "a = x")
    case True
    have "f x \<notin> f ` set xs" using Cons.prems True by simp
    then have "\<And>y. y \<in> set xs \<Longrightarrow> f y \<noteq> f x" by (metis imageI)
    then have "filter (\<lambda>y. f y = f x) xs = []"
      by (simp add: filter_empty_conv)
    then show ?thesis using True by simp
  next
    case False
    then have "f a \<noteq> f x" using Cons.prems by force
    then show ?thesis using Cons False by auto
  qed
qed

lemma match_entity_empty: "(match_entity n ns = []) = (n \<notin> node_name ` set ns)"
  by (force simp: match_entity_def filter_empty_conv in_set_conv_nth)

lemma nodes_add_entity:
  "nodes (cypher_add_entity n t r db) =
     (if n \<in> node_name ` set (nodes db)
      then map (\<lambda>e. if node_name e = n then e\<lparr>node_topic := Some t, node_round := Some r\<rparr> else e)
             (nodes db)
      else nodes db @ [\<lparr>node_name = n, node_topic = Some t, node_round = Some r\<rparr>])"
proof (cases "n \<in> node_name ` set (nodes db)")
  case True
  then have "match_entity n (nodes db) \<noteq> []" by (simp add: match_entity_empty)
  then show ?thesis using True
    using fold_update_map[of "\<lambda>e. e\<lparr>node_topic := Some t, node_round := Some r\<rparr>"
        "\<lambda>e. node_name e = n" "nodes db"]
    by (simp add: cypher_add_entity_def merge_entity_def set_entity_def match_entity_def)
next
  case False
  then have "match_entity n (nodes db) = []" by (simp add: match_entity_empty)
  then show ?thesis using False
    by (simp add: cypher_add_entity_def merge_entity_def set_entity_def)
qed

lemma edges_add_entity: "edges (cypher_add_entity n t r db) = edges db"
  by (simp add: cypher_add_entity_def split: prod.splits)

lemma names_add_entity:
  "map node_name (nodes (cypher_add_entity n t r db)) =
     (if n \<in> node_name ` set (nodes db) then map node_name (nodes db)
      else map node_name (nodes db) @ [n])"
  by (auto simp: nodes_add_entity)

lemma entity_after_add:
  assumes "distinct (map node_name (nodes db))"
  shows "filter (\<lambda>e. node_name e = n) (nodes (cypher_add_entity n t r db))
           = [\<lparr>node_name = n, node_topic = Some t, node_round = Some r\<rparr>]"
proof -
  let ?db = "cypher_add_entity n t r db"
  let ?new = "\<lparr>node_name = n, node_topic = Some t, node_round = Some r\<rparr>"
  have d: "distinct (map node_name (nodes ?db))"
    using assms by (auto simp: names_add_entity)
  have m: "?new \<in> set (nodes ?db)"
    by (auto simp: nodes_add_entity image_iff)
  from distinct_filter_key[OF d m] show ?thesis by simp
qed

lemma distinct_names_nth:
  "distinct (map node_name ns) \<Longrightarrow> i < length ns \<Longrightarrow> j < length ns \<Longrightarrow>
   node_name (ns ! i) = node_name (ns ! j) \<Longrightarrow> i = j"
  by (metis length_map nth_eq_iff_index_eq nth_map)

lemma match_entity_single:
  assumes d: "distinct (map node_name ns)" and i: "i < length ns"
  shows "match_entity (node_name (ns ! i)) ns = [i]"
proof -
  let ?f = "\<lambda>j. node_name (ns ! j)"
  have "map ?f [0..<length ns] = map node_name ns"
    by (rule nth_equalityI) simp_all
  then have d': "distinct (map ?f [0..<length ns])" using d by simp
  have m: "i \<in> set [0..<length ns]" using i by simp
  from distinct_filter_key[OF d' m] show ?thesis by (simp add: match_entity_def)
qed

lemma merge_entity_row:
  assumes d: "distinct (map node_name ns)" and m: "merge_entity n ns = (ns', rows)"
  shows "\<exists>i zs. rows = [i] \<and> i < length ns' \<and> node_name (ns' ! i) = n \<and>
           distinct (map node_name ns') \<and> ns' = ns @ zs"
proof (cases "n \<in> node_name ` set ns")
  case True
  then obtain i where i: "i < length ns" and n: "node_name (ns ! i) = n"
    by (auto simp: in_set_conv_nth)
  have "match_entity n ns = [i]" using match_entity_single[OF d i] n by simp
  then have "ns' = ns" "rows = [i]" using m by (simp_all add: merge_entity_def)
  then show ?thesis using i n d by simp
next
  case False
  then have "match_entity n ns = []" by (simp add: match_entity_empty)
  then have "ns' = ns @ [\<lparr>node_name = n, node_topic = None, node_round = None\<rparr>]"
    "rows = [length ns]"
    using m by (simp_all add: merge_entity_def)
  then show ?thesis using False d by simp
qed

lemma match_edge_empty:
  "(match_edge a b es = []) = (\<not> (\<exists>e\<in>set es. edge_from e = a \<and> edge_to e = b))"
  by (force simp: match_edge_def filter_empty_conv in_set_conv_nth)

lemma merge_set_edge_eq:
  "merge_set_edge rel s (a, b) es =
     (if \<exists>e\<in>set es. edge_from e = a \<and> edge_to e = b
      then map (\<lambda>e. if edge_from e = a \<and> edge_to e = b
                    then e\<lparr>edge_relationship := rel, edge_suspicion := s\<rparr> else e) es
      else es @ [\<lparr>edge_from = a, edge_to = b, edge_relationship = rel, edge_suspicion = s\<rparr>])"
proof (cases "\<exists>e\<in>set es. edge_from e = a \<and> edge_to e = b")
  case True
  then have "match_edge a b es \<noteq> []" by (simp add: match_edge_empty)
  then show ?thesis using True
    using fold_update_map[of "\<lambda>e. e\<lparr>edge_relationship := rel, edge_suspicion := s\<rparr>"
        "\<lambda>e. edge_from e = a \<and> edge_to e = b" es]
    by (simp add: merge_set_edge_def match_edge_def)
next
  case False
  then have "match_edge a b es = []" by (simp add: match_edge_empty)
  then show ?thesis using False by (simp add: merge_set_edge_def)
qed

lemma merge_set_edge_pairs:
  "map (\<lambda>e. (edge_from e, edge_to e)) (merge_set_edge rel s (a, b) es) =
     (if (a, b) \<in> set (map (\<lambda>e. (edge_from e, edge_to e)) es)
      then map (\<lambda>e. (edge_from e, edge_to e)) es
      else map (\<lambda>e. (edge_from e, edge_to e)) es @ [(a, b)])"
  by (auto simp: merge_set_edge_eq image_iff)

lemma merge_set_edge_mem:
  "\<lparr>edge_from = a, edge_to = b, edge_relationship = rel, edge_suspicion = s\<rparr>
     \<in> set (merge_set_edge rel s (a, b) es)"
  by (auto simp: merge_set_edge_eq image_iff)

subsection \<open>The invariant\<close>

lemma graph_inv_delete_all: "graph_inv (cypher_delete_all db)"
  by (simp add: graph_inv_def cypher_delete_all_def)

lemma graph_inv_add_entity:
  assumes "graph_inv db"
  shows "graph_inv (cypher_add_entity n t r db)"
proof -
  have "length (nodes db) \<le> length (nodes (cypher_add_entity n t r db))"
    by (simp add: nodes_add_entity)
  then show ?thesis using assms
    by (fastforce simp: graph_inv_def names_add_entity edges_add_entity list_all_iff)
qed

lemma connection_after_add:
  assumes inv: "graph_inv db"
  shows "graph_inv (cypher_add_connection f t rel s db) \<and>
         filter (\<lambda>c. conn_from c = f \<and> conn_to c = t)
           (cypher_connections (cypher_add_connection f t rel s db))
         = [\<lparr>conn_from = f, conn_to = t, conn_relationship = rel, conn_suspicion = s\<rparr>]"
proof -
  let ?key = "\<lambda>e. (edge_from e, edge_to e)"
  obtain ns1 rs1 where m1: "merge_entity f (nodes db) = (ns1, rs1)" by force
  obtain ns2 rs2 where m2: "merge_entity t ns1 = (ns2, rs2)" by force
  have d0: "distinct (map node_name (nodes db))" using inv by (simp add: graph_inv_def)
  from merge_entity_row[OF d0 m1] obtain a zs1 where
    a: "rs1 = [a]" "a < length ns1" "node_name (ns1 ! a) = f"
    and d1: "distinct (map node_name ns1)" and p1: "ns1 = nodes db @ zs1" by blast
  from merge_entity_row[OF d1 m2] obtain b zs2 where
    b: "rs2 = [b]" "b < length ns2" "node_name (ns2 ! b) = t"
    and d2: "distinct (map node_name ns2)" and p2: "ns2 = ns1 @ zs2" by blast
  have a2: "a < length ns2" "node_name (ns2 ! a) = f"
    using a p2 by (simp_all add: nth_append)
  let ?es = "merge_set_edge rel s (a, b) (edges db)"
  let ?db = "cypher_add_connection f t rel s db"
  have db': "nodes ?db = ns2" "edges ?db = ?es"
    using m1 m2 a b by (simp_all add: cypher_add_connection_def)
  have len: "length (nodes db) \<le> length ns2" using p1 p2 by simp
  have bnd0: "\<And>e. e \<in> set (edges db) \<Longrightarrow> edge_from e < length ns2 \<and> edge_to e < length ns2"
    using inv len by (fastforce simp: graph_inv_def list_all_iff)
  have bnd: "\<And>e. e \<in> set ?es \<Longrightarrow> edge_from e < length ns2 \<and> edge_to e < length ns2"
    using bnd0 a2(1) b(2) by (auto simp: merge_set_edge_eq split: if_splits)
  have dp: "distinct (map ?key ?es)"
    using inv by (simp add: merge_set_edge_pairs graph_inv_def)
  have inv': "graph_inv ?db"
    using d2 dp bnd by (simp add: graph_inv_def db' list_all_iff)
  let ?new = "\<lparr>edge_from = a, edge_to = b, edge_relationship = rel, edge_suspicion = s\<rparr>"
  have mem: "?new \<in> set ?es" by (rule merge_set_edge_mem)
  have one: "filter (\<lambda>e. ?key e = ?key ?new) ?es = [?new]"
    by (rule distinct_filter_key[OF dp mem])
  have same: "filter (\<lambda>e. node_name (ns2 ! edge_from e) = f \<and> node_name (ns2 ! edge_to e) = t) ?es
        = filter (\<lambda>e. ?key e = ?key ?new) ?es"
  proof (rule filter_cong[OF refl])
    fix e assume e: "e \<in> set ?es"
    have "(node_name (ns2 ! edge_from e) = f) = (edge_from e = a)"
      using distinct_names_nth[OF d2 _ a2(1), of "edge_from e"] bnd[OF e] a2(2) by auto
    moreover have "(node_name (ns2 ! edge_to e) = t) = (edge_to e = b)"
      using distinct_names_nth[OF d2 _ b(2), of "edge_to e"] bnd[OF e] b(3) by auto
    ultimately show "(node_name (ns2 ! edge_from e) = f \<and> node_name (ns2 ! edge_to e) = t)
        = (?key e = ?key ?new)" by simp
  qed
  have all: "filter (\<lambda>e. edge_from e < length ns2 \<and> edge_to e < length ns2) ?es = ?es"
    using bnd by (simp add: filter_id_conv)
  have "filter (\<lambda>c. conn_from c = f \<and> conn_to c = t) (cypher_connections ?db)
        = [\<lparr>conn_from = f, conn_to = t, conn_relationship = rel, conn_suspicion = s\<rparr>]"
    using one same a2(2) b(3) by (simp add: cypher_connections_def db' all filter_map comp_def)
  with inv' show ?thesis by simp
qed

lemma clear_establishes_inv:
  "clear g = Inr g' \<Longrightarrow> driver g' = Some db \<Longrightarrow> available g' \<Longrightarrow> graph_inv db"
  by (auto simp: clear_def session_run_def graph_inv_delete_all split: if_splits)

lemma add_entity_keeps_inv:
  "add_entity g n t r = Inr g' \<Longrightarrow> driver g = Some db \<Longrightarrow> graph_inv db \<Longrightarrow>
   driver g' = Some db' \<Longrightarrow> graph_inv db'"
  by (auto simp: add_entity_def session_run_def graph_inv_add_entity split: if_splits)

lemma add_connection_keeps_inv:
  "add_connection g f t rel s = Inr g' \<Longrightarrow> driver g = Some db \<Longrightarrow> graph_inv db \<Longrightarrow>
   driver g' = Some db' \<Longrightarrow> graph_inv db'"
  by (auto simp: add_connection_def session_run_def connection_after_add split: if_splits)

subsection \<open>Claims\<close>

text \<open>
  C1. Entity upsert is idempotent, and the last writer wins. On a store that is
  available and answers, whose database satisfies the invariant of the upserts (as it
  does from \<open>clear\<close> on), upserting a name twice, with any topics and rounds, succeeds
  both times, and afterwards \<open>get_all_entities\<close> holds exactly one record with that name,
  whose topic and round are those of the second upsert.
\<close>

theorem add_entity_twice:
  assumes "available g" and "driver g = Some db" and "reachable db" and "graph_inv db"
  shows "\<exists>g1 g2 es.
           add_entity g n t1 r1 = Inr g1 \<and> add_entity g1 n t2 r2 = Inr g2 \<and>
           get_all_entities g2 = Inr es \<and>
           filter (\<lambda>e. node_name e = n) es
             = [\<lparr>node_name = n, node_topic = Some t2, node_round = Some r2\<rparr>]"
proof -
  let ?db1 = "cypher_add_entity n t1 r1 db"
  let ?db2 = "cypher_add_entity n t2 r2 ?db1"
  let ?g1 = "g\<lparr>driver := Some ?db1\<rparr>"
  let ?g2 = "?g1\<lparr>driver := Some ?db2\<rparr>"
  have r1: "reachable ?db1" using assms(3)
    by (simp add: cypher_add_entity_def split: prod.splits)
  have r2: "reachable ?db2" using r1
    by (simp add: cypher_add_entity_def split: prod.splits)
  have s1: "add_entity g n t1 r1 = Inr ?g1"
    using assms by (simp add: add_entity_def session_run_def)
  have s2: "add_entity ?g1 n t2 r2 = Inr ?g2"
    using assms r1 by (simp add: add_entity_def session_run_def)
  have s3: "get_all_entities ?g2 = Inr (nodes ?db2)"
    using assms r2 by (simp add: get_all_entities_def session_run_def)
  have "graph_inv ?db1" using assms(4) by (rule graph_inv_add_entity)
  then have "distinct (map node_name (nodes ?db1))" by (simp add: graph_inv_def)
  then have "filter (\<lambda>e. node_name e = n) (nodes ?db2)
      = [\<lparr>node_name = n, node_topic = Some t2, node_round = Some r2\<rparr>]"
    by (rule entity_after_add)
  with s1 s2 s3 show ?thesis by blast
qed

theorem add_entity_twice_witness:
  "available \<lparr>available = True, driver = Some \<lparr>nodes = [], edges = [], reachable = True\<rparr>\<rparr> \<and>
   driver \<lparr>available = True, driver = Some \<lparr>nodes = [], edges = [], reachable = True\<rparr>\<rparr>
     = Some \<lparr>nodes = [], edges = [], reachable = True\<rparr> \<and>
   reachable \<lparr>nodes = [], edges = [], reachable = True\<rparr> \<and>
   graph_inv \<lparr>nodes = [], edges = [], reachable = True\<rparr> \<and>
   (\<exists>g1 g2 es.
      add_entity \<lparr>available = True, driver = Some \<lparr>nodes = [], edges = [], reachable = True\<rparr>\<rparr>
        ''Area 51'' ''Moon Landing'' 1 = Inr g1 \<and>
      add_entity g1 ''Area 51'' ''Bigfoot'' 2 = Inr g2 \<and>
      get_all_entities g2 = Inr es \<and>
      filter (\<lambda>e. node_name e = ''Area 51'') es
        = [\<lparr>node_name = ''Area 51'', node_topic = Some ''Bigfoot'', node_round = Some 2\<rparr>])"
proof -
  let ?db = "\<lparr>nodes = [], edges = [], reachable = True\<rparr>"
  let ?g = "\<lparr>available = True, driver = Some ?db\<rparr>"
  have h1: "available ?g" by simp
  have h2: "driver ?g = Some ?db" by simp
  have h3: "reachable ?db" by simp
  have h4: "graph_inv ?db" by (simp add: graph_inv_def)
  from add_entity_twice[OF h1 h2 h3 h4, of "''Area 51''" "''Moon Landing''" 1 "''Bigfoot''" 2]
  show ?thesis using h1 h2 h3 h4 by blast
qed

text \<open>
  C2. Connection upsert is idempotent per ordered pair. On a store that is available
  and answers, whose database satisfies the invariant of the upserts, upserting a
  connection for the pair \<open>(f, t)\<close> twice succeeds both times, and afterwards
  \<open>get_connections\<close> holds exactly one record for the pair, whose relationship and
  suspicion are those of the second upsert.
\<close>

theorem add_connection_twice:
  assumes "available g" and "driver g = Some db" and "reachable db" and "graph_inv db"
  shows "\<exists>g1 g2 cs.
           add_connection g f t rel1 s1 = Inr g1 \<and> add_connection g1 f t rel2 s2 = Inr g2 \<and>
           get_connections g2 = Inr cs \<and>
           filter (\<lambda>c. conn_from c = f \<and> conn_to c = t) cs
             = [\<lparr>conn_from = f, conn_to = t, conn_relationship = rel2, conn_suspicion = s2\<rparr>]"
proof -
  let ?db1 = "cypher_add_connection f t rel1 s1 db"
  let ?db2 = "cypher_add_connection f t rel2 s2 ?db1"
  let ?g1 = "g\<lparr>driver := Some ?db1\<rparr>"
  let ?g2 = "?g1\<lparr>driver := Some ?db2\<rparr>"
  have r1: "reachable ?db1" using assms(3)
    by (simp add: cypher_add_connection_def split: prod.splits)
  have r2: "reachable ?db2" using r1
    by (simp add: cypher_add_connection_def split: prod.splits)
  have c1: "add_connection g f t rel1 s1 = Inr ?g1"
    using assms by (simp add: add_connection_def session_run_def)
  have c2: "add_connection ?g1 f t rel2 s2 = Inr ?g2"
    using assms r1 by (simp add: add_connection_def session_run_def)
  have c3: "get_connections ?g2 = Inr (cypher_connections ?db2)"
    using assms r2 by (simp add: get_connections_def session_run_def)
  have "graph_inv ?db1" using connection_after_add[OF assms(4)] by simp
  then have "filter (\<lambda>c. conn_from c = f \<and> conn_to c = t) (cypher_connections ?db2)
      = [\<lparr>conn_from = f, conn_to = t, conn_relationship = rel2, conn_suspicion = s2\<rparr>]"
    using connection_after_add by simp
  with c1 c2 c3 show ?thesis by blast
qed

theorem add_connection_twice_witness:
  "available \<lparr>available = True, driver = Some \<lparr>nodes = [], edges = [], reachable = True\<rparr>\<rparr> \<and>
   driver \<lparr>available = True, driver = Some \<lparr>nodes = [], edges = [], reachable = True\<rparr>\<rparr>
     = Some \<lparr>nodes = [], edges = [], reachable = True\<rparr> \<and>
   reachable \<lparr>nodes = [], edges = [], reachable = True\<rparr> \<and>
   graph_inv \<lparr>nodes = [], edges = [], reachable = True\<rparr> \<and>
   (\<exists>g1 g2 cs.
      add_connection \<lparr>available = True, driver = Some \<lparr>nodes = [], edges = [], reachable = True\<rparr>\<rparr>
        ''NASA'' ''Bigfoot'' ''funded the search'' 3 = Inr g1 \<and>
      add_connection g1 ''NASA'' ''Bigfoot'' ''staged the footage'' 9 = Inr g2 \<and>
      get_connections g2 = Inr cs \<and>
      filter (\<lambda>c. conn_from c = ''NASA'' \<and> conn_to c = ''Bigfoot'') cs
        = [\<lparr>conn_from = ''NASA'', conn_to = ''Bigfoot'',
            conn_relationship = ''staged the footage'', conn_suspicion = 9\<rparr>])"
proof -
  let ?db = "\<lparr>nodes = [], edges = [], reachable = True\<rparr>"
  let ?g = "\<lparr>available = True, driver = Some ?db\<rparr>"
  have h1: "available ?g" by simp
  have h2: "driver ?g = Some ?db" by simp
  have h3: "reachable ?db" by simp
  have h4: "graph_inv ?db" by (simp add: graph_inv_def)
  from add_connection_twice[OF h1 h2 h3 h4, of "''NASA''" "''Bigfoot''" "''funded the search''" 3
      "''staged the footage''" 9]
  show ?thesis using h1 h2 h3 h4 by blast
qed

text \<open>
  C3. When the store is unavailable (the flag is false, or there is no driver), every
  operation returns its default and none raises, whatever its arguments: the three
  writes leave the object as it is, the two lists are empty, the count is 0, and
  \<open>close\<close> leaves the object without a driver.
\<close>

theorem unavailable_defaults:
  assumes "\<not> available g \<or> driver g = None"
  shows "clear g = Inr g \<and>
         add_entity g n t r = Inr g \<and>
         add_connection g f t' rel s = Inr g \<and>
         get_all_entities g = Inr [] \<and>
         get_connections g = Inr [] \<and>
         get_entity_count g = Inr 0 \<and>
         close g = Inr (g\<lparr>driver := None\<rparr>)"
proof -
  have "close g = Inr (g\<lparr>driver := None\<rparr>)"
    by (cases "driver g") (simp_all add: close_def)
  then show ?thesis using assms
    by (auto simp: clear_def add_entity_def add_connection_def get_all_entities_def
        get_connections_def get_entity_count_def)
qed

theorem unavailable_defaults_witness:
  "driver \<lparr>available = False, driver = None\<rparr> = None \<and>
   clear \<lparr>available = False, driver = None\<rparr> = Inr \<lparr>available = False, driver = None\<rparr> \<and>
   add_entity \<lparr>available = False, driver = None\<rparr> ''Area 51'' ''Moon Landing'' 1
     = Inr \<lparr>available = False, driver = None\<rparr> \<and>
   add_connection \<lparr>available = False, driver = None\<rparr> ''NASA'' ''Bigfoot'' ''funded'' 7
     = Inr \<lparr>available = False, driver = None\<rparr> \<and>
   get_all_entities \<lparr>available = False, driver = None\<rparr> = Inr [] \<and>
   get_connections \<lparr>available = False, driver = None\<rparr> = Inr [] \<and>
   get_entity_count \<lparr>available = False, driver = None\<rparr> = Inr 0 \<and>
   close \<lparr>available = False, driver = None\<rparr> = Inr \<lparr>available = False, driver = None\<rparr>"
proof -
  have h: "\<not> available \<lparr>available = False, driver = None\<rparr>
      \<or> driver \<lparr>available = False, driver = None\<rparr> = None" by simp
  from unavailable_defaults[OF h, of "''Area 51''" "''Moon Landing''" 1 "''NASA''" "''Bigfoot''"
      "''funded''" 7]
  show ?thesis by simp
qed

section \<open>The knowledge store\<close>




section \<open>The extraction text\<close>

lemma join_items_contents:
  "list_all has_str_content rs \<Longrightarrow> join_items (map get_content rs) = Inr (contents rs)"
proof (induction rs)
  case Nil
  then show ?case by (simp add: contents_def)
next
  case (Cons r rs)
  from Cons.prems obtain s where s: "get_content r = JStr s"
    by (auto simp: has_str_content_def split: json.splits)
  from Cons have "join_items (map get_content rs) = Inr (contents rs)" by simp
  then show ?case using s by (simp add: contents_def)
qed

lemma join_items_TypeError:
  "\<not> list_all has_str_content rs \<Longrightarrow> join_items (map get_content rs) = Inl TypeError"
proof (induction rs)
  case Nil
  then show ?case by simp
next
  case (Cons r rs)
  show ?case
  proof (cases "get_content r")
    case (JStr s)
    then have "has_str_content r" by (simp add: has_str_content_def)
    then have "\<not> list_all has_str_content rs" using Cons.prems by simp
    then show ?thesis using Cons.IH JStr by simp
  qed simp_all
qed

lemma raw_text_contents:
  "list_all has_str_content rs \<Longrightarrow>
   raw_text rs = Inr (take 3000 (str_join ''\<newline>'' (contents rs)))"
  by (simp add: raw_text_def join_items_contents Let_def)

lemma raw_text_TypeError:
  "\<not> list_all has_str_content rs \<Longrightarrow> raw_text rs = Inl TypeError"
  by (simp add: raw_text_def join_items_TypeError)













section \<open>The extractor\<close>

lemma extract_whitespace:
  "raw_text rs = Inr input \<Longrightarrow> py_strip input = [] \<Longrightarrow>
   extract_entities_and_connections chat loads topic_a topic_b rs = (Inr fallback, [])"
  by (simp add: extract_entities_and_connections_def Let_def)

lemma extract_request:
  "raw_text rs = Inr input \<Longrightarrow> py_strip input \<noteq> [] \<Longrightarrow>
   fst (extract_entities_and_connections chat loads topic_a topic_b rs)
     = (case extraction_request chat loads (extraction_prompt topic_a topic_b input) of
          Inl e \<Rightarrow> Inr fallback
        | Inr r \<Rightarrow> Inr r)"
  by (simp add: extract_entities_and_connections_def Let_def)

lemma extract_returns:
  "raw_text rs = Inr input \<Longrightarrow>
   \<exists>r. fst (extract_entities_and_connections chat loads topic_a topic_b rs) = Inr r"
  by (cases "py_strip input = []")
    (auto simp: extract_whitespace extract_request split: sum.splits)

lemma extract_TypeError:
  "\<not> list_all has_str_content rs \<Longrightarrow>
   extract_entities_and_connections chat loads topic_a topic_b rs = (Inl TypeError, [])"
  by (simp add: extract_entities_and_connections_def raw_text_TypeError)

text \<open>
  C5, as amended. On search results each of whose content is a string or absent, the
  text is joined and extraction never raises: it always returns a dict of the four keys.
  On a text that is empty or all whitespace it returns the fallback and sends nothing to
  the language model. Otherwise it returns the fallback when the request raises, when
  the answer has no text, when the text (fences removed) does not decode, and when it
  decodes to something that is not an object; and when it decodes to an object, each of
  the four keys has the object's value, or its default when the object lacks it: the
  empty list for the three lists, the canned sentence for the insight.
\<close>

theorem extraction_total:
  assumes "list_all has_str_content rs"
  shows "raw_text rs = Inr (joined_text rs) \<and>
   (\<exists>r. fst (extract_entities_and_connections chat loads topic_a topic_b rs) = Inr r) \<and>
   (py_strip (joined_text rs) = []
      \<longrightarrow> extract_entities_and_connections chat loads topic_a topic_b rs = (Inr fallback, [])) \<and>
   (py_strip (joined_text rs) \<noteq> [] \<longrightarrow>
      (\<forall>e. chat extraction_system (extraction_prompt topic_a topic_b (joined_text rs)) = Inl e
         \<longrightarrow> fst (extract_entities_and_connections chat loads topic_a topic_b rs) = Inr fallback) \<and>
      (chat extraction_system (extraction_prompt topic_a topic_b (joined_text rs)) = Inr None
         \<longrightarrow> fst (extract_entities_and_connections chat loads topic_a topic_b rs) = Inr fallback) \<and>
      (\<forall>reply e. chat extraction_system (extraction_prompt topic_a topic_b (joined_text rs)) = Inr (Some reply)
           \<and> loads (strip_code_fences (py_strip reply)) = Inl e
         \<longrightarrow> fst (extract_entities_and_connections chat loads topic_a topic_b rs) = Inr fallback) \<and>
      (\<forall>reply v. chat extraction_system (extraction_prompt topic_a topic_b (joined_text rs)) = Inr (Some reply)
           \<and> loads (strip_code_fences (py_strip reply)) = Inr v \<and> (\<forall>d. v \<noteq> JObj d)
         \<longrightarrow> fst (extract_entities_and_connections chat loads topic_a topic_b rs) = Inr fallback) \<and>
      (\<forall>reply d. chat extraction_system (extraction_prompt topic_a topic_b (joined_text rs)) = Inr (Some reply)
           \<and> loads (strip_code_fences (py_strip reply)) = Inr (JObj d)
         \<longrightarrow> fst (extract_entities_and_connections chat loads topic_a topic_b rs)
             = Inr \<lparr>entities_a = (case map_of d ''entities_a'' of None \<Rightarrow> JArr [] | Some v \<Rightarrow> v),
                    entities_b = (case map_of d ''entities_b'' of None \<Rightarrow> JArr [] | Some v \<Rightarrow> v),
                    connections = (case map_of d ''connections'' of None \<Rightarrow> JArr [] | Some v \<Rightarrow> v),
                    insight = (case map_of d ''insight'' of
                                 None \<Rightarrow> JStr ''No connections found yet...'' | Some v \<Rightarrow> v)\<rparr>))"
proof -
  have rt: "raw_text rs = Inr (joined_text rs)"
    unfolding joined_text_def by (rule raw_text_contents[OF assms])
  let ?p = "extraction_prompt topic_a topic_b (joined_text rs)"
  let ?x = "fst (extract_entities_and_connections chat loads topic_a topic_b rs)"
  have c1: "\<forall>e. chat extraction_system ?p = Inl e \<longrightarrow> extraction_request chat loads ?p = Inl e"
    by (simp add: extraction_request_def)
  have c2: "chat extraction_system ?p = Inr None
      \<longrightarrow> extraction_request chat loads ?p = Inl AttributeError"
    by (simp add: extraction_request_def)
  have c3: "\<forall>reply e. chat extraction_system ?p = Inr (Some reply)
           \<and> loads (strip_code_fences (py_strip reply)) = Inl e
         \<longrightarrow> extraction_request chat loads ?p = Inl e"
    by (simp add: extraction_request_def)
  have c4: "\<forall>reply v. chat extraction_system ?p = Inr (Some reply)
           \<and> loads (strip_code_fences (py_strip reply)) = Inr v \<and> (\<forall>d. v \<noteq> JObj d)
         \<longrightarrow> extraction_request chat loads ?p = Inl AttributeError"
    by (auto simp: extraction_request_def split: json.splits)
  have c5: "\<forall>reply d. chat extraction_system ?p = Inr (Some reply)
           \<and> loads (strip_code_fences (py_strip reply)) = Inr (JObj d)
         \<longrightarrow> extraction_request chat loads ?p
             = Inr \<lparr>entities_a = (case map_of d ''entities_a'' of None \<Rightarrow> JArr [] | Some v \<Rightarrow> v),
                    entities_b = (case map_of d ''entities_b'' of None \<Rightarrow> JArr [] | Some v \<Rightarrow> v),
                    connections = (case map_of d ''connections'' of None \<Rightarrow> JArr [] | Some v \<Rightarrow> v),
                    insight = (case map_of d ''insight'' of
                                 None \<Rightarrow> JStr ''No connections found yet...'' | Some v \<Rightarrow> v)\<rparr>"
    by (simp add: extraction_request_def get_default_def fallback_def)
  show ?thesis
  proof (intro conjI impI)
    show "raw_text rs = Inr (joined_text rs)" by (rule rt)
  next
    show "\<exists>r. ?x = Inr r" by (rule extract_returns[OF rt])
  next
    assume "py_strip (joined_text rs) = []"
    then show "extract_entities_and_connections chat loads topic_a topic_b rs = (Inr fallback, [])"
      by (rule extract_whitespace[OF rt])
  next
    assume n: "py_strip (joined_text rs) \<noteq> []"
    show "\<forall>e. chat extraction_system ?p = Inl e \<longrightarrow> ?x = Inr fallback"
      using c1 by (auto simp: extract_request[OF rt n])
  next
    assume n: "py_strip (joined_text rs) \<noteq> []"
       and "chat extraction_system ?p = Inr None"
    then show "?x = Inr fallback"
      using c2 by (simp add: extract_request[OF rt n])
  next
    assume n: "py_strip (joined_text rs) \<noteq> []"
    show "\<forall>reply e. chat extraction_system ?p = Inr (Some reply)
           \<and> loads (strip_code_fences (py_strip reply)) = Inl e \<longrightarrow> ?x = Inr fallback"
    proof (intro allI impI)
      fix reply e
      assume "chat extraction_system ?p = Inr (Some reply)
           \<and> loads (strip_code_fences (py_strip reply)) = Inl e"
      with c3 have "extraction_request chat loads ?p = Inl e" by blast
      then show "?x = Inr fallback" by (simp add: extract_request[OF rt n])
    qed
  next
    assume n: "py_strip (joined_text rs) \<noteq> []"
    show "\<forall>reply v. chat extraction_system ?p = Inr (Some reply)
           \<and> loads (strip_code_fences (py_strip reply)) = Inr v \<and> (\<forall>d. v \<noteq> JObj d)
         \<longrightarrow> ?x = Inr fallback"
    proof (intro allI impI)
      fix reply v
      assume "chat extraction_system ?p = Inr (Some reply)
           \<and> loads (strip_code_fences (py_strip reply)) = Inr v \<and> (\<forall>d. v \<noteq> JObj d)"
      with c4 have "extraction_request chat loads ?p = Inl AttributeError" by blast
      then show "?x = Inr fallback" by (simp add: extract_request[OF rt n])
    qed
  next
    assume n: "py_strip (joined_text rs) \<noteq> []"
    show "\<forall>reply d. chat extraction_system ?p = Inr (Some reply)
           \<and> loads (strip_code_fences (py_strip reply)) = Inr (JObj d)
         \<longrightarrow> ?x
             = Inr \<lparr>entities_a = (case map_of d ''entities_a'' of None \<Rightarrow> JArr [] | Some v \<Rightarrow> v),
                    entities_b = (case map_of d ''entities_b'' of None \<Rightarrow> JArr [] | Some v \<Rightarrow> v),
                    connections = (case map_of d ''connections'' of None \<Rightarrow> JArr [] | Some v \<Rightarrow> v),
                    insight = (case map_of d ''insight'' of
                                 None \<Rightarrow> JStr ''No connections found yet...'' | Some v \<Rightarrow> v)\<rparr>"
    proof (intro allI impI)
      fix reply d
      assume "chat extraction_system ?p = Inr (Some reply)
           \<and> loads (strip_code_fences (py_strip reply)) = Inr (JObj d)"
      with c5 have "extraction_request chat loads ?p
             = Inr \<lparr>entities_a = (case map_of d ''entities_a'' of None \<Rightarrow> JArr [] | Some v \<Rightarrow> v),
                    entities_b = (case map_of d ''entities_b'' of None \<Rightarrow> JArr [] | Some v \<Rightarrow> v),
                    connections = (case map_of d ''connections'' of None \<Rightarrow> JArr [] | Some v \<Rightarrow> v),
                    insight = (case map_of d ''insight'' of
                                 None \<Rightarrow> JStr ''No connections found yet...'' | Some v \<Rightarrow> v)\<rparr>"
        by blast
      then show "?x
             = Inr \<lparr>entities_a = (case map_of d ''entities_a'' of None \<Rightarrow> JArr [] | Some v \<Rightarrow> v),
                    entities_b = (case map_of d ''entities_b'' of None \<Rightarrow> JArr [] | Some v \<Rightarrow> v),
                    connections = (case map_of d ''connections'' of None \<Rightarrow> JArr [] | Some v \<Rightarrow> v),
                    insight = (case map_of d ''insight'' of
                                 None \<Rightarrow> JStr ''No connections found yet...'' | Some v \<Rightarrow> v)\<rparr>"
        by (simp add: extract_request[OF rt n])
    qed
  qed
qed

theorem extraction_total_witness:
  \<open>list_all has_str_content [\<lparr>title = ''t'', url = ''u'', content = Some (JStr ''Apollo'')\<rparr>] \<and>
   raw_text [\<lparr>title = ''t'', url = ''u'', content = Some (JStr ''Apollo'')\<rparr>] = Inr ''Apollo'' \<and>
   py_strip ''Apollo'' \<noteq> [] \<and>
   (\<lambda>s. if s = ''{"insight": "x"}'' then Inr (JObj [(''insight'', JStr ''x'')])
         else Inl JSONDecodeError)
      (strip_code_fences (py_strip ''```json\<newline>{"insight": "x"}\<newline>```''))
     = (Inr (JObj [(''insight'', JStr ''x'')]) :: error + json) \<and>
   fst (extract_entities_and_connections
          (\<lambda>system user. Inr (Some ''```json\<newline>{"insight": "x"}\<newline>```''))
          (\<lambda>s. if s = ''{"insight": "x"}'' then Inr (JObj [(''insight'', JStr ''x'')])
                else Inl JSONDecodeError)
          ''Moon Landing'' ''Bigfoot'' [\<lparr>title = ''t'', url = ''u'', content = Some (JStr ''Apollo'')\<rparr>])
     = Inr \<lparr>entities_a = JArr [], entities_b = JArr [], connections = JArr [],
            insight = JStr ''x''\<rparr>\<close>
proof -
  let ?rs = "[\<lparr>title = ''t'', url = ''u'', content = Some (JStr ''Apollo'')\<rparr>]"
  let ?reply = \<open>''```json\<newline>{"insight": "x"}\<newline>```''\<close>
  let ?chat = "\<lambda>system user. (Inr (Some ?reply) :: error + string option)"
  let ?loads = \<open>\<lambda>s. if s = ''{"insight": "x"}'' then Inr (JObj [(''insight'', JStr ''x'')])
         else (Inl JSONDecodeError :: error + json)\<close>
  have h: "list_all has_str_content ?rs"
    by (simp add: has_str_content_def get_content_def get_default_def)
  have c: "take 3000 (str_join ''\<newline>'' (contents ?rs)) = ''Apollo''"
    by (simp add: contents_def get_content_def get_default_def)
  have n: "py_strip ''Apollo'' \<noteq> []"
    by (simp add: py_strip_def py_rstrip_def py_isspace_def)
  have l: "?loads (strip_code_fences (py_strip ?reply)) = Inr (JObj [(''insight'', JStr ''x'')])"
    by (simp add: strip_code_fences_def strip_opening_fence_def strip_closing_fence_def
        startswith_def endswith_def py_strip_def py_rstrip_def py_isspace_def)
  have g: "?chat extraction_system (extraction_prompt ''Moon Landing'' ''Bigfoot'' ''Apollo'')
        = Inr (Some ?reply)
      \<and> ?loads (strip_code_fences (py_strip ?reply)) = Inr (JObj [(''insight'', JStr ''x'')])"
    using l by simp
  have j: "joined_text ?rs = ''Apollo''" using c by (simp add: joined_text_def)
  note th = extraction_total[OF h, of ?chat ?loads "''Moon Landing''" "''Bigfoot''", unfolded j]
  note rt = th[THEN conjunct1]
  note th3 = th[THEN conjunct2, THEN conjunct2, THEN conjunct2, THEN mp, OF n]
  note th5 = th3[THEN conjunct2, THEN conjunct2, THEN conjunct2, THEN conjunct2, rule_format, OF g]
  from th5 h rt n l show ?thesis by simp
qed

text \<open>
  C5 as worded says that extraction never raises. The text is joined before the \<open>try\<close>,
  so a result whose content is present and is not a string (here a list, under the
  ``Previous Findings'' title) makes the function raise a TypeError, with nothing sent
  to the language model.
\<close>

theorem extraction_raises_counterexample:
  \<open>extract_entities_and_connections
     (\<lambda>system user. Inr (Some ''{}'')) (\<lambda>s. Inr (JObj [])) ''Moon Landing'' ''Bigfoot''
     [\<lparr>title = ''Previous Findings'', url = [], content = Some (JArr [JStr ''x''])\<rparr>]
   = (Inl TypeError, [])\<close>
  by (simp add: extract_entities_and_connections_def raw_text_def get_content_def get_default_def)

lemma length_fallback_queries: "length (fallback_queries topic_a topic_b) = 3"
  by (simp add: fallback_queries_def)

lemma length_deeper_request:
  "deeper_request chat loads str_of topic_a topic_b previous_insight = Inr qs \<Longrightarrow> length qs \<le> 3"
  using length_fallback_queries[of topic_a topic_b]
  by (auto simp: deeper_request_def split: sum.splits option.splits json.splits if_splits)

lemma length_get_deeper_search_queries:
  "length (get_deeper_search_queries chat loads str_of topic_a topic_b previous_insight) \<le> 3"
  using length_fallback_queries[of topic_a topic_b] length_deeper_request
  by (simp add: get_deeper_search_queries_def split: sum.splits)

text \<open>
  C6. The deeper queries are at most 3 strings. They are the three template queries,
  built from the two topics alone, when the request raises, when the answer has no
  text, when the text (fences removed) does not decode, and when it decodes to anything
  but a non-empty array; for a non-empty array they are its first three elements, as
  strings.
\<close>

theorem deeper_queries_bound:
  "length (get_deeper_search_queries chat loads str_of topic_a topic_b previous_insight) \<le> 3 \<and>
   fallback_queries topic_a topic_b
     = [topic_a @ '' secret connections'', topic_b @ '' hidden links'',
        topic_a @ '' '' @ topic_b @ '' conspiracy''] \<and>
   (\<forall>e. chat deeper_system (deeper_prompt topic_a topic_b previous_insight) = Inl e
      \<longrightarrow> get_deeper_search_queries chat loads str_of topic_a topic_b previous_insight
          = fallback_queries topic_a topic_b) \<and>
   (chat deeper_system (deeper_prompt topic_a topic_b previous_insight) = Inr None
      \<longrightarrow> get_deeper_search_queries chat loads str_of topic_a topic_b previous_insight
          = fallback_queries topic_a topic_b) \<and>
   (\<forall>reply e. chat deeper_system (deeper_prompt topic_a topic_b previous_insight) = Inr (Some reply)
        \<and> loads (strip_code_fences (py_strip reply)) = Inl e
      \<longrightarrow> get_deeper_search_queries chat loads str_of topic_a topic_b previous_insight
          = fallback_queries topic_a topic_b) \<and>
   (\<forall>reply v. chat deeper_system (deeper_prompt topic_a topic_b previous_insight) = Inr (Some reply)
        \<and> loads (strip_code_fences (py_strip reply)) = Inr v \<and> (\<forall>q qs. v \<noteq> JArr (q # qs))
      \<longrightarrow> get_deeper_search_queries chat loads str_of topic_a topic_b previous_insight
          = fallback_queries topic_a topic_b) \<and>
   (\<forall>reply q qs. chat deeper_system (deeper_prompt topic_a topic_b previous_insight) = Inr (Some reply)
        \<and> loads (strip_code_fences (py_strip reply)) = Inr (JArr (q # qs))
      \<longrightarrow> get_deeper_search_queries chat loads str_of topic_a topic_b previous_insight
          = map (py_str str_of) (take 3 (q # qs)))"
proof -
  let ?p = "deeper_prompt topic_a topic_b previous_insight"
  let ?r = "deeper_request chat loads str_of topic_a topic_b previous_insight"
  let ?g = "get_deeper_search_queries chat loads str_of topic_a topic_b previous_insight"
  have len: "length ?g \<le> 3"
    by (rule length_get_deeper_search_queries)
  have c1: "\<forall>e. chat deeper_system ?p = Inl e \<longrightarrow> ?g = fallback_queries topic_a topic_b"
    by (simp add: get_deeper_search_queries_def deeper_request_def)
  have c2: "chat deeper_system ?p = Inr None \<longrightarrow> ?g = fallback_queries topic_a topic_b"
    by (simp add: get_deeper_search_queries_def deeper_request_def)
  have c3: "\<forall>reply e. chat deeper_system ?p = Inr (Some reply)
        \<and> loads (strip_code_fences (py_strip reply)) = Inl e
      \<longrightarrow> ?g = fallback_queries topic_a topic_b"
    by (simp add: get_deeper_search_queries_def deeper_request_def)
  have c4: "\<forall>reply v. chat deeper_system ?p = Inr (Some reply)
        \<and> loads (strip_code_fences (py_strip reply)) = Inr v \<and> (\<forall>q qs. v \<noteq> JArr (q # qs))
      \<longrightarrow> ?g = fallback_queries topic_a topic_b"
  proof (intro allI impI)
    fix reply v
    assume a: "chat deeper_system ?p = Inr (Some reply)
        \<and> loads (strip_code_fences (py_strip reply)) = Inr v \<and> (\<forall>q qs. v \<noteq> JArr (q # qs))"
    then have "?r = Inr (fallback_queries topic_a topic_b)"
    proof (cases v)
      case (JArr xs)
      then have "xs = []" using a by (cases xs) auto
      then show ?thesis using a JArr by (simp add: deeper_request_def)
    qed (use a in \<open>simp_all add: deeper_request_def\<close>)
    then show "?g = fallback_queries topic_a topic_b"
      by (simp add: get_deeper_search_queries_def)
  qed
  have c5: "\<forall>reply q qs. chat deeper_system ?p = Inr (Some reply)
        \<and> loads (strip_code_fences (py_strip reply)) = Inr (JArr (q # qs))
      \<longrightarrow> ?g = map (py_str str_of) (take 3 (q # qs))"
    by (simp add: get_deeper_search_queries_def deeper_request_def)
  have tpl: "fallback_queries topic_a topic_b
     = [topic_a @ '' secret connections'', topic_b @ '' hidden links'',
        topic_a @ '' '' @ topic_b @ '' conspiracy'']"
    by (simp add: fallback_queries_def)
  from len tpl c1 c2 c3 c4 c5 show ?thesis by (intro conjI)
qed

theorem deeper_queries_bound_witness:
  \<open>(\<lambda>system user. Inr (Some ''{"queries": []}''))
      deeper_system (deeper_prompt ''Moon Landing'' ''Bigfoot'' ''They met.'')
     = (Inr (Some ''{"queries": []}'') :: error + string option) \<and>
   (\<lambda>s. Inr (JObj [(''queries'', JArr [])]))
      (strip_code_fences (py_strip ''{"queries": []}''))
     = (Inr (JObj [(''queries'', JArr [])]) :: error + json) \<and>
   get_deeper_search_queries (\<lambda>system user. Inr (Some ''{"queries": []}''))
       (\<lambda>s. Inr (JObj [(''queries'', JArr [])])) (\<lambda>v. ''?'') ''Moon Landing'' ''Bigfoot'' ''They met.''
     = [''Moon Landing secret connections'', ''Bigfoot hidden links'',
        ''Moon Landing Bigfoot conspiracy'']\<close>
proof -
  let ?reply = \<open>''{"queries": []}''\<close>
  let ?chat = "\<lambda>system user. (Inr (Some ?reply) :: error + string option)"
  let ?loads = "\<lambda>s. (Inr (JObj [(''queries'', JArr [])]) :: error + json)"
  have h: "?chat deeper_system (deeper_prompt ''Moon Landing'' ''Bigfoot'' ''They met.'')
        = Inr (Some ?reply)
      \<and> ?loads (strip_code_fences (py_strip ?reply)) = Inr (JObj [(''queries'', JArr [])])
      \<and> (\<forall>q qs. JObj [(''queries'', JArr [])] \<noteq> JArr (q # qs))"
    by simp
  note th = deeper_queries_bound[of ?chat ?loads "\<lambda>v. ''?''" "''Moon Landing''" "''Bigfoot''"
      "''They met.''"]
  note th4 = th[THEN conjunct2, THEN conjunct2, THEN conjunct2, THEN conjunct2, THEN conjunct2,
      THEN conjunct1, rule_format, OF h]
  note tpl = th[THEN conjunct2, THEN conjunct1]
  from th4 tpl show ?thesis by simp
qed

section \<open>The images of a round\<close>

lemma fold_fromkeys:
  "fold (\<lambda>k keys. if k \<in> set keys then keys else keys @ [k]) xs acc
     = acc @ first_occurrences (filter (\<lambda>y. y \<notin> set acc) xs)"
proof (induction xs arbitrary: acc)
  case Nil
  then show ?case by simp
next
  case (Cons x xs)
  show ?case
  proof (cases "x \<in> set acc")
    case True
    then show ?thesis using Cons.IH[of acc] by simp
  next
    case False
    have "filter (\<lambda>y. y \<notin> set (acc @ [x])) xs
        = filter (\<lambda>y. y \<noteq> x) (filter (\<lambda>y. y \<notin> set acc) xs)"
      by (auto intro: filter_cong)
    then show ?thesis using False Cons.IH[of "acc @ [x]"] by simp
  qed
qed

lemma dict_fromkeys_first_occurrences: "dict_fromkeys xs = first_occurrences xs"
  by (simp add: dict_fromkeys_def fold_fromkeys)

lemma analyze_images_fold:
  "fold (\<lambda>image_url (events, analyzed).
           (let clue = analyze_image reka image_url topic_a topic_b
            in (if clue \<noteq> []
                then events @ emit on_event (ImageClue image_url clue round_num)
                else events,
                analyzed @ [image_url])))
     urls (evs, seen)
   = (evs @ concat (map (\<lambda>u. emit on_event (ImageClue u (analyze_image reka u topic_a topic_b) round_num))
                      (filter (\<lambda>u. analyze_image reka u topic_a topic_b \<noteq> []) urls)),
      seen @ urls)"
  by (induction urls arbitrary: evs seen) (simp_all add: Let_def)

lemma length_search_topic_images: "length (snd (search_topic client topic max_results)) \<le> 3"
  by (simp add: search_topic_def Let_def split: option.splits sum.splits)

lemma length_deeper_images:
  "length (snd (fold (\<lambda>query (rs, imgs).
                    case search_topic tavily query 3 of
                      (extra_results, extra_images) \<Rightarrow> (rs @ extra_results, imgs @ extra_images))
              queries (rs0, imgs0)))
     \<le> length imgs0 + 3 * length queries"
proof (induction queries arbitrary: rs0 imgs0)
  case Nil
  then show ?case by simp
next
  case (Cons query queries)
  obtain er ei where s: "search_topic tavily query 3 = (er, ei)" by force
  have "length ei \<le> 3" using length_search_topic_images[of tavily query 3] s by simp
  then show ?case using Cons.IH[of "rs0 @ er" "imgs0 @ ei"] s by simp
qed

lemma length_round_images:
  "length (snd (snd (snd (round_search tavily chat loads str_of topic_a topic_b round_num last_insight))))
     \<le> (if round_num = 1 then 9 else 18)"
proof -
  let ?qs = "if round_num = 1 then []
             else get_deeper_search_queries chat loads str_of topic_a topic_b last_insight"
  obtain cr ci where c: "search_connections tavily topic_a topic_b = (cr, ci)" by force
  have ci: "length ci \<le> 3"
    using length_search_topic_images[of tavily
        "topic_a @ '' '' @ topic_b @ '' connection relationship''" 3] c
    by (simp add: search_connections_def)
  have q: "length ?qs \<le> (if round_num = 1 then 0 else 3)"
    using length_get_deeper_search_queries[of chat loads str_of topic_a topic_b last_insight]
    by simp
  have a: "length (snd (search_topic tavily topic_a 5)) \<le> 3"
    and b: "length (snd (search_topic tavily topic_b 5)) \<le> 3"
    by (rule length_search_topic_images)+
  have f: "length (snd (fold (\<lambda>query (rs, imgs).
                    case search_topic tavily query 3 of
                      (extra_results, extra_images) \<Rightarrow> (rs @ extra_results, imgs @ extra_images))
              ?qs (cr, ci))) \<le> length ci + 3 * length ?qs"
    by (rule length_deeper_images)
  have "length (snd (snd (snd (round_search tavily chat loads str_of topic_a topic_b round_num last_insight))))
      = length (snd (fold (\<lambda>query (rs, imgs).
                    case search_topic tavily query 3 of
                      (extra_results, extra_images) \<Rightarrow> (rs @ extra_results, imgs @ extra_images))
              ?qs (cr, ci)))
        + length (snd (search_topic tavily topic_a 5)) + length (snd (search_topic tavily topic_b 5))"
    by (simp add: round_search_def c Let_def split: prod.splits)
  then show ?thesis using f ci q a b by (auto split: if_splits)
qed

text \<open>
  C8. For every list of image URLs accumulated in a round, the URLs passed to vision
  analysis are the first occurrences of the list in first-seen order, cut to the first
  two; every search call contributes at most 3 image URLs, so that a round accumulates
  at most 9 of them in round 1 and 18 in a later round; and the \<open>image_clue\<close> events
  are those of the analysed URLs whose clue is not empty, in order, each with its URL,
  its clue and the round.
\<close>

theorem images_of_round:
  "snd (analyze_images reka on_event topic_a topic_b round_num round_images)
     = take 2 (first_occurrences round_images) \<and>
   length (snd (search_topic client topic max_results)) \<le> 3 \<and>
   length (snd (snd (snd (round_search client chat loads str_of topic_a topic_b round_num last_insight))))
     \<le> (if round_num = 1 then 9 else 18) \<and>
   fst (analyze_images reka True topic_a topic_b round_num round_images)
     = map (\<lambda>u. ImageClue u (analyze_image reka u topic_a topic_b) round_num)
         (filter (\<lambda>u. analyze_image reka u topic_a topic_b \<noteq> [])
            (take 2 (first_occurrences round_images))) \<and>
   fst (analyze_images reka False topic_a topic_b round_num round_images) = []"
proof -
  have u: "unique_images round_images = take 2 (first_occurrences round_images)"
    by (simp add: unique_images_def dict_fromkeys_first_occurrences)
  have c: "\<And>f xs. concat (map (\<lambda>u. [f u]) xs) = map f xs"
    by (simp add: concat_map_singleton)
  have e: "fst (analyze_images reka True topic_a topic_b round_num round_images)
     = map (\<lambda>u. ImageClue u (analyze_image reka u topic_a topic_b) round_num)
         (filter (\<lambda>u. analyze_image reka u topic_a topic_b \<noteq> [])
            (take 2 (first_occurrences round_images)))"
    by (simp add: analyze_images_def analyze_images_fold u emit_def c)
  have n: "fst (analyze_images reka False topic_a topic_b round_num round_images) = []"
    by (simp add: analyze_images_def analyze_images_fold emit_def)
  have p: "snd (analyze_images reka on_event topic_a topic_b round_num round_images)
     = take 2 (first_occurrences round_images)"
    by (simp add: analyze_images_def analyze_images_fold u)
  from p e n length_search_topic_images[of client topic max_results]
    length_round_images[of client chat loads str_of topic_a topic_b round_num last_insight]
  show ?thesis by (intro conjI)
qed

theorem images_of_round_witness:
  "snd (analyze_images
          (Some (\<lambda>image_url prompt. if image_url = ''u1'' then Inr (Some '' a sign '') else Inl RequestError))
          True ''Moon Landing'' ''Bigfoot'' 1 [''u1'', ''u2'', ''u1'', ''u3''])
     = [''u1'', ''u2''] \<and>
   fst (analyze_images
          (Some (\<lambda>image_url prompt. if image_url = ''u1'' then Inr (Some '' a sign '') else Inl RequestError))
          True ''Moon Landing'' ''Bigfoot'' 1 [''u1'', ''u2'', ''u1'', ''u3''])
     = [ImageClue ''u1'' ''a sign'' 1]"
proof -
  let ?reka = "Some (\<lambda>image_url prompt. if image_url = ''u1'' then Inr (Some '' a sign '') else Inl RequestError)"
  have a1: "analyze_image ?reka ''u1'' ''Moon Landing'' ''Bigfoot'' = ''a sign''"
    by (simp add: analyze_image_def py_strip_def py_rstrip_def py_isspace_def)
  have a2: "analyze_image ?reka ''u2'' ''Moon Landing'' ''Bigfoot'' = []"
    by (simp add: analyze_image_def)
  note th = images_of_round[where reka = ?reka and on_event = True and topic_a = "''Moon Landing''"
      and topic_b = "''Bigfoot''" and round_num = 1 and round_images = "[''u1'', ''u2'', ''u1'', ''u3'']"]
  from th[THEN conjunct1] th[THEN conjunct2, THEN conjunct2, THEN conjunct2, THEN conjunct1]
  show ?thesis using a1 a2 by simp
qed

section \<open>The end of the run\<close>






section \<open>Storing a round in the graph\<close>

lemma reachable_add_entity: "reachable (cypher_add_entity n t r db) = reachable db"
  by (simp add: cypher_add_entity_def split: prod.splits)

lemma reachable_add_connection: "reachable (cypher_add_connection f t rel s db) = reachable db"
  by (simp add: cypher_add_connection_def split: prod.splits)

lemma add_entity_answers:
  "answers g \<Longrightarrow> \<exists>g'. add_entity g n t r = Inr g' \<and> answers g'"
  by (cases "driver g")
    (auto simp: answers_def add_entity_def session_run_def reachable_add_entity)

lemma add_connection_answers:
  "answers g \<Longrightarrow> \<exists>g'. add_connection g f t rel s = Inr g' \<and> answers g'"
  by (cases "driver g")
    (auto simp: answers_def add_connection_def session_run_def reachable_add_connection)

lemma get_entity_count_answers: "answers g \<Longrightarrow> \<exists>n. get_entity_count g = Inr n"
  by (cases "driver g") (auto simp: answers_def get_entity_count_def session_run_def)

lemma store_entities_answers:
  "answers g \<Longrightarrow> \<exists>g'. store_entities g topic round_num ents = Inr g' \<and> answers g'"
proof (induction ents arbitrary: g)
  case Nil
  then show ?case by simp
next
  case (Cons entity rest)
  from add_entity_answers[OF Cons.prems, of entity topic round_num]
  obtain g1 where g1: "add_entity g entity topic round_num = Inr g1" "answers g1" by blast
  from Cons.IH[OF g1(2)] show ?case using g1(1) by simp
qed

lemma store_connections_prefix:
  "answers g \<Longrightarrow> list_all has_required_keys pre \<Longrightarrow>
   \<exists>g'. answers g' \<and> store_connections g (pre @ rest) = store_connections g' rest"
proof (induction pre arbitrary: g)
  case Nil
  then show ?case by auto
next
  case (Cons conn pre)
  from Cons.prems(2) obtain f t rel where
    k: "cd_from conn = Some f" "cd_to conn = Some t" "cd_relationship conn = Some rel"
    by (auto simp: has_required_keys_def)
  from add_connection_answers[OF Cons.prems(1), of f t rel "get_default (cd_suspicion_level conn) 5"]
  obtain g1 where g1: "add_connection g f t rel (get_default (cd_suspicion_level conn) 5) = Inr g1"
    "answers g1" by blast
  from Cons.prems(2) have "list_all has_required_keys pre" by simp
  from Cons.IH[OF g1(2) this] show ?case using k g1(1) by (simp add: subscript_def)
qed

lemma store_connections_missing:
  "\<not> has_required_keys conn \<Longrightarrow>
   store_connections g (conn # post) = Inl (KeyError (missing_key conn))"
  by (auto simp: has_required_keys_def missing_key_def subscript_def split: option.splits)

lemma store_in_graph_first_missing:
  assumes "answers g" and "list_all has_required_keys pre" and "\<not> has_required_keys conn"
  shows "store_in_graph g topic_a topic_b round_num ents_a ents_b (pre @ conn # post)
           = Inl (KeyError (missing_key conn))"
proof -
  from store_entities_answers[OF assms(1), of topic_a round_num ents_a]
  obtain g1 where g1: "store_entities g topic_a round_num ents_a = Inr g1" "answers g1" by blast
  from store_entities_answers[OF g1(2), of topic_b round_num ents_b]
  obtain g2 where g2: "store_entities g1 topic_b round_num ents_b = Inr g2" "answers g2" by blast
  from store_connections_prefix[OF g2(2) assms(2), of "conn # post"]
  obtain g3 where g3: "answers g3"
    "store_connections g2 (pre @ conn # post) = store_connections g3 (conn # post)" by blast
  have "store_connections g2 (pre @ conn # post) = Inl (KeyError (missing_key conn))"
    using g3(2) store_connections_missing[OF assms(3)] by simp
  then show ?thesis using g1(1) g2(1) by (simp add: store_in_graph_def)
qed

lemma store_in_graph_returns:
  assumes "answers g" and "list_all has_required_keys conns"
  shows "\<exists>g' n. store_in_graph g topic_a topic_b round_num ents_a ents_b conns = Inr (g', n)"
proof -
  from store_entities_answers[OF assms(1), of topic_a round_num ents_a]
  obtain g1 where g1: "store_entities g topic_a round_num ents_a = Inr g1" "answers g1" by blast
  from store_entities_answers[OF g1(2), of topic_b round_num ents_b]
  obtain g2 where g2: "store_entities g1 topic_b round_num ents_b = Inr g2" "answers g2" by blast
  from store_connections_prefix[OF g2(2) assms(2), of "[]"]
  obtain g3 where g3: "answers g3" "store_connections g2 conns = Inr g3" by auto
  from get_entity_count_answers[OF g3(1)] obtain n where "get_entity_count g3 = Inr n" by blast
  then show ?thesis using g1(1) g2(1) g3(2) by (simp add: store_in_graph_def)
qed

text \<open>
  C10. On a store whose statements do not raise, when some connection dict of the
  extraction lacks the key \<open>from\<close>, \<open>to\<close> or \<open>relationship\<close>, the store step ends in a
  KeyError of one of these keys (of the first one that the first such dict lacks), and
  nothing in \<open>run_agent\<close> handles it. A dict that lacks only \<open>suspicion_level\<close> is
  upserted with suspicion 5, and when every dict has the three keys the step returns.
\<close>

theorem missing_key_raises:
  assumes "answers g" and "conn \<in> set conns" and "\<not> has_required_keys conn"
  shows "(\<exists>key. (key = ''from'' \<or> key = ''to'' \<or> key = ''relationship'') \<and>
            store_in_graph g topic_a topic_b round_num ents_a ents_b conns = Inl (KeyError key)) \<and>
         store_connections g
           [\<lparr>cd_from = Some f, cd_to = Some t, cd_relationship = Some rel, cd_suspicion_level = None\<rparr>]
           = add_connection g f t rel 5 \<and>
         (list_all has_required_keys others \<longrightarrow>
            (\<exists>g' n. store_in_graph g topic_a topic_b round_num ents_a ents_b others = Inr (g', n)))"
proof -
  from assms(2,3) have "\<exists>c\<in>set conns. \<not> has_required_keys c" by blast
  then obtain pre c post where
    sp: "conns = pre @ c # post" "\<not> has_required_keys c" "\<forall>y\<in>set pre. \<not> \<not> has_required_keys y"
    using split_list_first_prop[of conns "\<lambda>c. \<not> has_required_keys c"] by blast
  then have pre: "list_all has_required_keys pre" by (simp add: list_all_iff)
  have k: "missing_key c = ''from'' \<or> missing_key c = ''to'' \<or> missing_key c = ''relationship''"
    by (simp add: missing_key_def)
  have "store_in_graph g topic_a topic_b round_num ents_a ents_b conns
      = Inl (KeyError (missing_key c))"
    unfolding sp(1) by (rule store_in_graph_first_missing[OF assms(1) pre sp(2)])
  with k have raises: "\<exists>key. (key = ''from'' \<or> key = ''to'' \<or> key = ''relationship'') \<and>
            store_in_graph g topic_a topic_b round_num ents_a ents_b conns = Inl (KeyError key)"
    by blast
  have single: "store_connections g
           [\<lparr>cd_from = Some f, cd_to = Some t, cd_relationship = Some rel, cd_suspicion_level = None\<rparr>]
           = add_connection g f t rel 5"
    by (simp add: subscript_def get_default_def split: sum.splits)
  have returns: "list_all has_required_keys others \<longrightarrow>
            (\<exists>g' n. store_in_graph g topic_a topic_b round_num ents_a ents_b others = Inr (g', n))"
    using store_in_graph_returns[OF assms(1)] by blast
  from raises single returns show ?thesis by (intro conjI)
qed

theorem missing_key_raises_witness:
  "answers \<lparr>available = True, driver = Some \<lparr>nodes = [], edges = [], reachable = True\<rparr>\<rparr> \<and>
   \<lparr>cd_from = Some ''NASA'', cd_to = None, cd_relationship = Some ''hid'',
      cd_suspicion_level = Some 9\<rparr>
     \<in> set [\<lparr>cd_from = Some ''NASA'', cd_to = Some ''Bigfoot'', cd_relationship = Some ''funded'',
              cd_suspicion_level = None\<rparr>,
             \<lparr>cd_from = Some ''NASA'', cd_to = None, cd_relationship = Some ''hid'',
              cd_suspicion_level = Some 9\<rparr>] \<and>
   \<not> has_required_keys
     \<lparr>cd_from = Some ''NASA'', cd_to = None, cd_relationship = Some ''hid'',
      cd_suspicion_level = Some 9\<rparr> \<and>
   (\<exists>key. (key = ''from'' \<or> key = ''to'' \<or> key = ''relationship'') \<and>
      store_in_graph \<lparr>available = True, driver = Some \<lparr>nodes = [], edges = [], reachable = True\<rparr>\<rparr>
        ''Moon Landing'' ''Bigfoot'' 1 [''NASA''] [''Bigfoot'']
        [\<lparr>cd_from = Some ''NASA'', cd_to = Some ''Bigfoot'', cd_relationship = Some ''funded'',
          cd_suspicion_level = None\<rparr>,
         \<lparr>cd_from = Some ''NASA'', cd_to = None, cd_relationship = Some ''hid'',
          cd_suspicion_level = Some 9\<rparr>]
        = Inl (KeyError key)) \<and>
   list_all has_required_keys
     [\<lparr>cd_from = Some ''NASA'', cd_to = Some ''Bigfoot'', cd_relationship = Some ''funded'',
       cd_suspicion_level = None\<rparr>] \<and>
   (\<exists>g' n. store_in_graph \<lparr>available = True, driver = Some \<lparr>nodes = [], edges = [], reachable = True\<rparr>\<rparr>
        ''Moon Landing'' ''Bigfoot'' 1 [''NASA''] [''Bigfoot'']
        [\<lparr>cd_from = Some ''NASA'', cd_to = Some ''Bigfoot'', cd_relationship = Some ''funded'',
          cd_suspicion_level = None\<rparr>]
        = Inr (g', n))"
proof -
  let ?g = "\<lparr>available = True, driver = Some \<lparr>nodes = [], edges = [], reachable = True\<rparr>\<rparr>"
  let ?ok = "\<lparr>cd_from = Some ''NASA'', cd_to = Some ''Bigfoot'', cd_relationship = Some ''funded'',
       cd_suspicion_level = None\<rparr>"
  let ?conn = "\<lparr>cd_from = Some ''NASA'', cd_to = None, cd_relationship = Some ''hid'',
      cd_suspicion_level = Some 9\<rparr>"
  have h1: "answers ?g" by (simp add: answers_def)
  have h2: "?conn \<in> set [?ok, ?conn]" by simp
  have h3: "\<not> has_required_keys ?conn" by (simp add: has_required_keys_def)
  have h4: "list_all has_required_keys [?ok]" by (simp add: has_required_keys_def)
  note th = missing_key_raises[OF h1 h2 h3, of "''Moon Landing''" "''Bigfoot''" 1 "[''NASA'']"
      "[''Bigfoot'']" _ _ _ "[?ok]"]
  note raises = th[THEN conjunct1]
  note returns = th[THEN conjunct2, THEN conjunct2, THEN mp, OF h4]
  from h1 h2 h3 raises h4 returns show ?thesis by (intro conjI)
qed

end
